theory Spec2Isabelle
  imports Complex_Main "HOL-Library.Char_ord" "HOL-Library.List_Lexorder"
begin

section \<open>Python values used by csv_to_backup.py\<close>

text \<open>
  Strings are \<^typ>\<open>string\<close> (lists of characters); the order on them is the lexicographic
  order of \<^theory_text>\<open>List_Lexorder\<close> over the character codes, which is how Python compares
  \<^verbatim>\<open>str\<close> values. A \<^typ>\<open>char\<close> is a code point below 256, so text outside that range
  is not modelled. There \<^verbatim>\<open>str.isspace\<close> holds for the codes 9 to 13 and 28 to 32, for
  133 (U+0085, next line) and for 160 (U+00A0, no-break space); these are the characters
  that \<^verbatim>\<open>str.strip()\<close> removes and that \<^verbatim>\<open>\s\<close> matches.
\<close>

definition py_isspace :: "char \<Rightarrow> bool" where
  "py_isspace c =
     (let n = (of_char c :: nat) in
      (9 \<le> n \<and> n \<le> 13) \<or> (28 \<le> n \<and> n \<le> 32) \<or> n = 133 \<or> n = 160)"

definition py_strip :: "string \<Rightarrow> string" where
  "py_strip s = rev (dropWhile py_isspace (rev (dropWhile py_isspace s)))"

text \<open>
  A \<^verbatim>\<open>dict\<close> is an association list in insertion order with distinct keys:
  \<open>dict_get d k v\<close> is \<^verbatim>\<open>d.get(k, v)\<close>, \<open>dict_set d k v\<close> is \<^verbatim>\<open>d[k] = v\<close> (an
  existing key keeps its position), and \<open>dict_append d k x\<close> is \<^verbatim>\<open>d[k].append(x)\<close> on a
  \<^verbatim>\<open>defaultdict(list)\<close>.
\<close>

definition dict_get :: "('k \<times> 'v) list \<Rightarrow> 'k \<Rightarrow> 'v \<Rightarrow> 'v" where
  "dict_get d k dflt = (case map_of d k of Some v \<Rightarrow> v | None \<Rightarrow> dflt)"

fun dict_set :: "('k \<times> 'v) list \<Rightarrow> 'k \<Rightarrow> 'v \<Rightarrow> ('k \<times> 'v) list" where
  "dict_set [] k v = [(k, v)]"
| "dict_set ((k', v') # d) k v =
     (if k' = k then (k', v) # d else (k', v') # dict_set d k v)"

fun dict_append :: "('k \<times> 'v list) list \<Rightarrow> 'k \<Rightarrow> 'v \<Rightarrow> ('k \<times> 'v list) list" where
  "dict_append [] k x = [(k, [x])]"
| "dict_append ((k', xs) # d) k x =
     (if k' = k then (k', xs @ [x]) # d else (k', xs) # dict_append d k x)"

text \<open>
  \<open>exn\<close> lists the exceptions that the script's statements can raise, a result \<open>Inl x\<close>
  is the exception \<open>x\<close> raised. \<^verbatim>\<open>ValueError\<close> stands for the class with its subclasses,
  which is what \<^verbatim>\<open>except ValueError\<close> catches. A run that does not complete ends either
  with \<^verbatim>\<open>sys.exit(n)\<close> or with an exception that nothing catches.
\<close>

datatype exn = ValueError | IndexError | OverflowError | OSError

datatype error = SystemExit nat | Uncaught exn

fun py_min :: "'a::linorder list \<Rightarrow> exn + 'a" where
  "py_min [] = Inl ValueError"
| "py_min (x # xs) = Inr (fold min xs x)"

fun py_max :: "'a::linorder list \<Rightarrow> exn + 'a" where
  "py_max [] = Inl ValueError"
| "py_max (x # xs) = Inr (fold max xs x)"

section \<open>The Python runtime\<close>

text \<open>
  What the script takes from the interpreter and the platform is a parameter of the model:
  \<^item> \<open>strptime env text format\<close> is \<^verbatim>\<open>datetime.strptime(text, format)\<close>, \<open>None\<close> when it
    raises \<^verbatim>\<open>ValueError\<close>;
  \<^item> \<open>timestamp_ms env dt\<close> is \<^verbatim>\<open>int(dt.timestamp() * 1000)\<close> in the local time zone.
    \<^verbatim>\<open>timestamp()\<close> can raise: \<^verbatim>\<open>ValueError\<close> when the search for the zone offset leaves
    the years 1 to 9999, \<^verbatim>\<open>OverflowError\<close> or \<^verbatim>\<open>OSError\<close> when the platform's
    \<^verbatim>\<open>localtime\<close> refuses the instant;
  \<^item> \<open>now_ms env k\<close> is the value of \<^verbatim>\<open>int(datetime.now().timestamp() * 1000)\<close> at the
    \<open>k\<close>-th reading of the wall clock during the run;
  \<^item> \<open>py_float env s\<close> and \<open>py_int env s\<close> are \<^verbatim>\<open>float(s)\<close> and \<^verbatim>\<open>int(s)\<close>, \<open>None\<close> when
    they raise \<^verbatim>\<open>ValueError\<close>. A Python \<^verbatim>\<open>float\<close> is a finite number, an infinity or
    not-a-number (\<^verbatim>\<open>float('nan')\<close> raises nothing); an \<^verbatim>\<open>int\<close> is unbounded.
\<close>

datatype float_value = Finite real | PlusInfinity | MinusInfinity | NaN

record datetime =
  dt_year :: nat
  dt_month :: nat
  dt_day :: nat
  dt_hour :: nat
  dt_minute :: nat

record runtime =
  strptime :: "string \<Rightarrow> string \<Rightarrow> datetime option"
  timestamp_ms :: "datetime \<Rightarrow> exn + int"
  now_ms :: "nat \<Rightarrow> int"
  py_float :: "string \<Rightarrow> float_value option"
  py_int :: "string \<Rightarrow> int option"

section \<open>Rows, tables and the conversion state\<close>

type_synonym row = "(string \<times> string) list"

record exercise_row =
  e_id :: nat
  e_uid :: nat
  e_name :: string
  e_created_at :: int

record workout_row =
  w_id :: nat
  w_uid :: nat
  w_started_at :: int
  w_completed_at :: int

record workout_exercise_row =
  wx_id :: nat
  wx_uid :: nat
  wx_workout_id :: nat
  wx_exercise_id :: nat
  wx_order_index :: nat
  wx_note :: "string option"
  wx_performed_at :: int
  wx_completed_at :: int

record set_row =
  s_id :: nat
  s_uid :: nat
  s_workout_id :: nat
  s_exercise_id :: nat
  s_workout_exercise_id :: nat
  s_set_index :: nat
  s_weight_kg :: "float_value option"
  s_reps :: "int option"
  s_note :: "string option"
  s_performed_at :: int
  s_is_warmup :: nat

text \<open>
  The four populated tables, each in insertion order. A row id is \<^verbatim>\<open>cursor.lastrowid\<close>: in a
  table that starts empty and never deletes, the number of rows after the insert. A uid is
  the ordinal of the \<^verbatim>\<open>generate_uid()\<close> call that minted it (the random text itself is not
  modelled). \<open>uid_count\<close> counts those calls and \<open>clock\<close> the readings of the wall clock.
\<close>

record database =
  exercises_tbl :: "exercise_row list"
  workouts_tbl :: "workout_row list"
  workout_exercises_tbl :: "workout_exercise_row list"
  sets_tbl :: "set_row list"

record conv_state = database +
  exercises :: "(string \<times> nat) list"
  workouts :: "(string \<times> nat) list"
  workout_exercises :: "((nat \<times> nat) \<times> nat) list"
  set_count :: nat
  uid_count :: nat
  clock :: nat

definition empty_database :: database where
  "empty_database =
     \<lparr>exercises_tbl = [], workouts_tbl = [], workout_exercises_tbl = [], sets_tbl = []\<rparr>"

definition init_state :: conv_state where
  "init_state =
     \<lparr>exercises_tbl = [], workouts_tbl = [], workout_exercises_tbl = [], sets_tbl = [],
      exercises = [], workouts = [], workout_exercises = [],
      set_count = 0, uid_count = 0, clock = 0\<rparr>"

definition committed :: "conv_state \<Rightarrow> database" where
  "committed st =
     \<lparr>exercises_tbl = exercises_tbl st, workouts_tbl = workouts_tbl st,
      workout_exercises_tbl = workout_exercises_tbl st, sets_tbl = sets_tbl st\<rparr>"

text \<open>
  What \<^verbatim>\<open>sqlite3\<close> does with a bound parameter. A Python \<^verbatim>\<open>int\<close> becomes an SQLite
  INTEGER, a signed 64-bit number, and a value outside that range raises
  \<^verbatim>\<open>OverflowError\<close>; \<^verbatim>\<open>None\<close> becomes NULL. A \<^verbatim>\<open>float\<close> becomes a REAL, except
  not-a-number, which SQLite stores as NULL. Of the integers the script binds only
  \<^verbatim>\<open>reps\<close> is read from the input; the others are counters of the run and timestamps in
  milliseconds of a date with a year of at most 9999 or of the clock, which lie far inside
  64 bits, so they are stored as they are.
\<close>

definition sqlite_integer :: "int option \<Rightarrow> exn + int option" where
  "sqlite_integer v =
     (case v of
        None \<Rightarrow> Inr None
      | Some n \<Rightarrow> if - (2 ^ 63) \<le> n \<and> n < 2 ^ 63 then Inr (Some n) else Inl OverflowError)"

definition sqlite_real :: "float_value option \<Rightarrow> float_value option" where
  "sqlite_real v = (case v of Some NaN \<Rightarrow> None | _ \<Rightarrow> v)"

section \<open>parse_datetime\<close>

text \<open>
  \<open>strptime_ms\<close> is the body of each \<^verbatim>\<open>try\<close> block: the call of \<^verbatim>\<open>strptime\<close> and the
  conversion \<^verbatim>\<open>int(dt.timestamp() * 1000)\<close>. A \<^verbatim>\<open>ValueError\<close> of either statement is
  caught by the handler; any other exception leaves \<^verbatim>\<open>parse_datetime\<close>.
\<close>

definition strptime_ms :: "runtime \<Rightarrow> string \<Rightarrow> string \<Rightarrow> exn + int" where
  "strptime_ms env text format =
     (case strptime env text format of
        None \<Rightarrow> Inl ValueError
      | Some dt \<Rightarrow> timestamp_ms env dt)"

definition parse_datetime :: "runtime \<Rightarrow> string \<Rightarrow> string \<Rightarrow> nat \<Rightarrow> exn + (int \<times> nat)" where
  "parse_datetime env date_str time_str clk =
     (case strptime_ms env (date_str @ '' '' @ time_str) ''%d/%m/%Y %H:%M'' of
        Inr ms \<Rightarrow> Inr (ms, clk)
      | Inl x \<Rightarrow>
          if x \<noteq> ValueError then Inl x
          else (case strptime_ms env (date_str @ '' '' @ time_str) ''%Y-%m-%d %H:%M'' of
                  Inr ms \<Rightarrow> Inr (ms, clk)
                | Inl y \<Rightarrow>
                    if y \<noteq> ValueError then Inl y
                    else Inr (now_ms env clk, Suc clk)))"

section \<open>A concrete runtime for closed examples\<close>

text \<open>
  \<open>strptime_ascii\<close> follows CPython's \<^verbatim>\<open>_strptime\<close> for the two formats the script uses,
  on text of code points below 256 (where the decimal digits are the ASCII ones). The format
  becomes a regular expression, matched from the start of the text; the whole text must be
  consumed and the date must exist:
  \<^verbatim>\<open>%d = 3[0-1]|[1-2]\d|0[1-9]|[1-9]| [1-9]\<close>, \<^verbatim>\<open>%m = 1[0-2]|0[1-9]|[1-9]\<close>,
  \<^verbatim>\<open>%Y = \d\d\d\d\<close>, \<^verbatim>\<open>%H = 2[0-3]|[0-1]\d|\d\<close>, \<^verbatim>\<open>%M = [0-5]\d|\d\<close>, and the blank
  of the format is \<^verbatim>\<open>\s+\<close>. Every field is followed by a character that is no digit (or
  by the end of the text), so taking the first alternative that matches gives the same
  result as the backtracking matcher.
\<close>

definition is_digit :: "char \<Rightarrow> bool" where
  "is_digit c = (CHR ''0'' \<le> c \<and> c \<le> CHR ''9'')"

definition digit_val :: "char \<Rightarrow> nat" where
  "digit_val c = of_char c - 48"

definition in_range :: "char \<Rightarrow> char \<Rightarrow> char \<Rightarrow> bool" where
  "in_range lo hi c = (lo \<le> c \<and> c \<le> hi)"

fun re_day :: "string \<Rightarrow> (nat \<times> string) option" where
  "re_day (a # b # s) =
     (if a = CHR ''3'' \<and> in_range (CHR ''0'') (CHR ''1'') b then Some (30 + digit_val b, s)
      else if in_range (CHR ''1'') (CHR ''2'') a \<and> is_digit b
        then Some (10 * digit_val a + digit_val b, s)
      else if a = CHR ''0'' \<and> in_range (CHR ''1'') (CHR ''9'') b then Some (digit_val b, s)
      else if in_range (CHR ''1'') (CHR ''9'') a then Some (digit_val a, b # s)
      else if a = CHR '' '' \<and> in_range (CHR ''1'') (CHR ''9'') b then Some (digit_val b, s)
      else None)"
| "re_day [a] = (if in_range (CHR ''1'') (CHR ''9'') a then Some (digit_val a, []) else None)"
| "re_day [] = None"

fun re_month :: "string \<Rightarrow> (nat \<times> string) option" where
  "re_month (a # b # s) =
     (if a = CHR ''1'' \<and> in_range (CHR ''0'') (CHR ''2'') b then Some (10 + digit_val b, s)
      else if a = CHR ''0'' \<and> in_range (CHR ''1'') (CHR ''9'') b then Some (digit_val b, s)
      else if in_range (CHR ''1'') (CHR ''9'') a then Some (digit_val a, b # s)
      else None)"
| "re_month [a] = (if in_range (CHR ''1'') (CHR ''9'') a then Some (digit_val a, []) else None)"
| "re_month [] = None"

fun re_year :: "string \<Rightarrow> (nat \<times> string) option" where
  "re_year (a # b # c # d # s) =
     (if is_digit a \<and> is_digit b \<and> is_digit c \<and> is_digit d
      then Some (1000 * digit_val a + 100 * digit_val b + 10 * digit_val c + digit_val d, s)
      else None)"
| "re_year _ = None"

fun re_hour :: "string \<Rightarrow> (nat \<times> string) option" where
  "re_hour (a # b # s) =
     (if a = CHR ''2'' \<and> in_range (CHR ''0'') (CHR ''3'') b then Some (20 + digit_val b, s)
      else if in_range (CHR ''0'') (CHR ''1'') a \<and> is_digit b
        then Some (10 * digit_val a + digit_val b, s)
      else if is_digit a then Some (digit_val a, b # s)
      else None)"
| "re_hour [a] = (if is_digit a then Some (digit_val a, []) else None)"
| "re_hour [] = None"

fun re_minute :: "string \<Rightarrow> (nat \<times> string) option" where
  "re_minute (a # b # s) =
     (if in_range (CHR ''0'') (CHR ''5'') a \<and> is_digit b
        then Some (10 * digit_val a + digit_val b, s)
      else if is_digit a then Some (digit_val a, b # s)
      else None)"
| "re_minute [a] = (if is_digit a then Some (digit_val a, []) else None)"
| "re_minute [] = None"

fun re_char :: "char \<Rightarrow> string \<Rightarrow> string option" where
  "re_char c (a # s) = (if a = c then Some s else None)"
| "re_char c [] = None"

fun re_spaces :: "string \<Rightarrow> string option" where
  "re_spaces (a # s) = (if py_isspace a then Some (dropWhile py_isspace s) else None)"
| "re_spaces [] = None"

definition is_leap :: "nat \<Rightarrow> bool" where
  "is_leap y = (y mod 4 = 0 \<and> (y mod 100 \<noteq> 0 \<or> y mod 400 = 0))"

definition days_in_month :: "nat \<Rightarrow> nat \<Rightarrow> nat" where
  "days_in_month y m =
     (if m = 2 then (if is_leap y then 29 else 28)
      else if m = 4 \<or> m = 6 \<or> m = 9 \<or> m = 11 then 30 else 31)"

definition make_datetime :: "nat \<Rightarrow> nat \<Rightarrow> nat \<Rightarrow> nat \<Rightarrow> nat \<Rightarrow> datetime option" where
  "make_datetime y m d h mi =
     (if 1 \<le> y \<and> d \<le> days_in_month y m
      then Some \<lparr>dt_year = y, dt_month = m, dt_day = d, dt_hour = h, dt_minute = mi\<rparr>
      else None)"

definition re_time :: "string \<Rightarrow> (nat \<times> nat) option" where
  "re_time s =
     Option.bind (re_spaces s) (\<lambda>s1.
     Option.bind (re_hour s1) (\<lambda>(h, s2).
     Option.bind (re_char (CHR '':'') s2) (\<lambda>s3.
     Option.bind (re_minute s3) (\<lambda>(mi, s4).
     if s4 = [] then Some (h, mi) else None))))"

definition strptime_dmy :: "string \<Rightarrow> datetime option" where
  "strptime_dmy s =
     Option.bind (re_day s) (\<lambda>(d, s1).
     Option.bind (re_char (CHR ''/'') s1) (\<lambda>s2.
     Option.bind (re_month s2) (\<lambda>(m, s3).
     Option.bind (re_char (CHR ''/'') s3) (\<lambda>s4.
     Option.bind (re_year s4) (\<lambda>(y, s5).
     Option.bind (re_time s5) (\<lambda>(h, mi). make_datetime y m d h mi))))))"

definition strptime_iso :: "string \<Rightarrow> datetime option" where
  "strptime_iso s =
     Option.bind (re_year s) (\<lambda>(y, s1).
     Option.bind (re_char (CHR ''-'') s1) (\<lambda>s2.
     Option.bind (re_month s2) (\<lambda>(m, s3).
     Option.bind (re_char (CHR ''-'') s3) (\<lambda>s4.
     Option.bind (re_day s4) (\<lambda>(d, s5).
     Option.bind (re_time s5) (\<lambda>(h, mi). make_datetime y m d h mi))))))"

definition strptime_ascii :: "string \<Rightarrow> string \<Rightarrow> datetime option" where
  "strptime_ascii text format =
     (if format = ''%d/%m/%Y %H:%M'' then strptime_dmy text
      else if format = ''%Y-%m-%d %H:%M'' then strptime_iso text
      else None)"

text \<open>
  The timestamp of a civil date and time in a zone without offset (UTC), as CPython
  computes it on a platform with a 64-bit \<^verbatim>\<open>time_t\<close>. \<^verbatim>\<open>timestamp()\<close> also looks at the
  instant one day earlier, so on the first of January of the year 1 it raises
  \<^verbatim>\<open>ValueError\<close> (year 0 is out of range); on every other date it returns.
\<close>

definition days_from_civil :: "int \<Rightarrow> int \<Rightarrow> int \<Rightarrow> int" where
  "days_from_civil y m d =
     (let y' = (if m \<le> 2 then y - 1 else y);
          era = y' div 400;
          yoe = y' - era * 400;
          doy = (153 * (if m > 2 then m - 3 else m + 9) + 2) div 5 + d - 1;
          doe = yoe * 365 + yoe div 4 - yoe div 100 + doy
      in era * 146097 + doe - 719468)"

definition utc_timestamp_ms :: "datetime \<Rightarrow> exn + int" where
  "utc_timestamp_ms dt =
     (if dt_year dt = 1 \<and> dt_month dt = 1 \<and> dt_day dt = 1 then Inl ValueError
      else Inr (((days_from_civil (int (dt_year dt)) (int (dt_month dt)) (int (dt_day dt)) * 24
                   + int (dt_hour dt)) * 60 + int (dt_minute dt)) * 60000))"

text \<open>
  The numeric readers of the example runtime accept plain ASCII literals only: up to 4300
  digits for \<open>plain_int\<close>; digits with an optional fraction, or the word \<^verbatim>\<open>nan\<close>, for
  \<open>plain_float\<close>. On these literals they agree with \<^verbatim>\<open>int\<close> and \<^verbatim>\<open>float\<close> (up to the
  rounding of \<^verbatim>\<open>float\<close>). They reject every other text, also signs, exponents and
  underscores, which Python accepts; the examples use none of those.
\<close>

definition digits_val :: "string \<Rightarrow> int" where
  "digits_val s = foldl (\<lambda>n c. 10 * n + int (digit_val c)) 0 s"

definition plain_int :: "string \<Rightarrow> int option" where
  "plain_int s =
     (if s \<noteq> [] \<and> length s \<le> 4300 \<and> list_all is_digit s then Some (digits_val s)
      else None)"

definition plain_float :: "string \<Rightarrow> float_value option" where
  "plain_float s =
     (let ip = takeWhile is_digit s; r = dropWhile is_digit s in
      if s = ''nan'' then Some NaN
      else if ip = [] then None
      else if r = [] then Some (Finite (of_int (digits_val ip)))
      else if hd r = CHR ''.'' \<and> list_all is_digit (tl r)
        then Some (Finite (of_int (digits_val (ip @ tl r)) / 10 ^ length (tl r)))
      else None)"

definition example_runtime :: runtime where
  "example_runtime =
     \<lparr>strptime = strptime_ascii, timestamp_ms = utc_timestamp_ms,
      now_ms = (\<lambda>k. 1762200000000 + int k),
      py_float = plain_float, py_int = plain_int\<rparr>"

section \<open>read_csv: from the reader's fields to clean rows\<close>

text \<open>
  The model starts at the output of the \<^verbatim>\<open>csv\<close> reader: the field names of the header line
  and the field list of every data line. \<open>dict_reader_row\<close> is \<^verbatim>\<open>csv.DictReader\<close>'s row
  (a missing field is \<open>None\<close>; surplus fields go under the key \<^verbatim>\<open>None\<close>, which the loop
  below skips, so they are left out), \<open>clean_row\<close> is the body of the loop over
  \<^verbatim>\<open>row.items()\<close>.
\<close>

definition dict_reader_row :: "string list \<Rightarrow> string list \<Rightarrow> (string \<times> string option) list" where
  "dict_reader_row fieldnames r =
     fold (\<lambda>key d. dict_set d key None) (drop (length r) fieldnames)
       (fold (\<lambda>(key, v) d. dict_set d key (Some v)) (zip fieldnames r) [])"

definition clean_value :: "string option \<Rightarrow> string" where
  "clean_value v = (case v of Some s \<Rightarrow> (if s \<noteq> [] then py_strip s else []) | None \<Rightarrow> [])"

definition clean_row :: "(string \<times> string option) list \<Rightarrow> row" where
  "clean_row r =
     fold (\<lambda>(key, v) clean. if key \<noteq> [] then dict_set clean (py_strip key) (clean_value v) else clean)
       r []"

definition read_csv :: "string list \<Rightarrow> string list list \<Rightarrow> row list" where
  "read_csv fieldnames data =
     filter (\<lambda>clean. clean \<noteq> [])
       (map (\<lambda>r. clean_row (dict_reader_row fieldnames r)) (filter (\<lambda>r. r \<noteq> []) data))"

section \<open>convert_csv_to_db\<close>

definition group_by_date :: "row list \<Rightarrow> (string \<times> row list) list" where
  "group_by_date rows =
     fold (\<lambda>row rows_by_date.
             let date_str = dict_get row ''Date'' [] in
             if date_str \<noteq> [] then dict_append rows_by_date date_str row else rows_by_date)
       rows []"

definition group_by_exercise :: "row list \<Rightarrow> (string \<times> row list) list" where
  "group_by_exercise day_rows =
     fold (\<lambda>row exercises_for_day.
             let exercise_name = py_strip (dict_get row ''Exercise'' []) in
             if exercise_name \<noteq> [] then dict_append exercises_for_day exercise_name row
             else exercises_for_day)
       day_rows []"

definition parse_field :: "(string \<Rightarrow> 'a option) \<Rightarrow> string \<Rightarrow> exn + 'a option" where
  "parse_field parse s =
     (if s \<noteq> [] then (case parse s of Some v \<Rightarrow> Inr (Some v) | None \<Rightarrow> Inl ValueError)
      else Inr None)"

definition note_of :: "string \<Rightarrow> string option" where
  "note_of note = (if note \<noteq> [] then Some note else None)"

fun insert_sets ::
  "runtime \<Rightarrow> string \<Rightarrow> nat \<Rightarrow> nat \<Rightarrow> nat \<Rightarrow> row list \<Rightarrow> nat \<Rightarrow> conv_state \<Rightarrow> exn + conv_state"
where
  "insert_sets env date_str workout_id exercise_id we_id [] set_index st = Inr st"
| "insert_sets env date_str workout_id exercise_id we_id (row # exercise_rows) set_index st =
     (case parse_datetime env (dict_get row ''Date'' date_str) (dict_get row ''Time'' ''00:00'')
             (clock st) of
        Inl x \<Rightarrow> Inl x
      | Inr (performed_at, clk) \<Rightarrow>
     (case parse_field (py_float env) (py_strip (dict_get row ''Weight'' [])) of
        Inl x \<Rightarrow> Inl x
      | Inr weight \<Rightarrow>
     (case parse_field (py_int env) (py_strip (dict_get row ''# of Reps'' [])) of
        Inl x \<Rightarrow> Inl x
      | Inr reps \<Rightarrow>
     (case sqlite_integer reps of
        Inl x \<Rightarrow> Inl x
      | Inr reps_stored \<Rightarrow>
          insert_sets env date_str workout_id exercise_id we_id exercise_rows (Suc set_index)
            (st\<lparr>sets_tbl := sets_tbl st @
                  [\<lparr>s_id = Suc (length (sets_tbl st)), s_uid = uid_count st,
                    s_workout_id = workout_id, s_exercise_id = exercise_id,
                    s_workout_exercise_id = we_id, s_set_index = set_index,
                    s_weight_kg = sqlite_real weight, s_reps = reps_stored,
                    s_note = note_of (py_strip (dict_get row ''Notes'' [])),
                    s_performed_at = performed_at, s_is_warmup = 0\<rparr>],
                set_count := Suc (set_count st),
                uid_count := Suc (uid_count st),
                clock := clk\<rparr>)))))"

definition ensure_exercise :: "string \<Rightarrow> int \<Rightarrow> conv_state \<Rightarrow> nat \<times> conv_state" where
  "ensure_exercise exercise_name workout_started_at st =
     (case map_of (exercises st) exercise_name of
        Some exercise_id \<Rightarrow> (exercise_id, st)
      | None \<Rightarrow>
          (let exercise_id = Suc (length (exercises_tbl st)) in
           (exercise_id,
            st\<lparr>exercises_tbl := exercises_tbl st @
                  [\<lparr>e_id = exercise_id, e_uid = uid_count st, e_name = exercise_name,
                    e_created_at = workout_started_at\<rparr>],
                exercises := dict_set (exercises st) exercise_name exercise_id,
                uid_count := Suc (uid_count st)\<rparr>)))"

definition ensure_workout_exercise ::
  "runtime \<Rightarrow> string \<Rightarrow> nat \<Rightarrow> nat \<Rightarrow> row list \<Rightarrow> nat \<Rightarrow> conv_state
     \<Rightarrow> exn + (nat \<times> nat \<times> conv_state)"
where
  "ensure_workout_exercise env date_str workout_id exercise_id exercise_rows exercise_order st =
     (case map_of (workout_exercises st) (workout_id, exercise_id) of
        Some we_id \<Rightarrow> Inr (we_id, exercise_order, st)
      | None \<Rightarrow>
          (case exercise_rows of
             [] \<Rightarrow> Inl IndexError
           | first_row # _ \<Rightarrow>
               (case parse_datetime env (dict_get first_row ''Date'' date_str)
                       (dict_get first_row ''Time'' ''00:00'') (clock st) of
                  Inl x \<Rightarrow> Inl x
                | Inr (performed_at, clk) \<Rightarrow>
                    (let we_id = Suc (length (workout_exercises_tbl st)) in
                     Inr (we_id, Suc exercise_order,
                       st\<lparr>workout_exercises_tbl := workout_exercises_tbl st @
                             [\<lparr>wx_id = we_id, wx_uid = uid_count st,
                               wx_workout_id = workout_id, wx_exercise_id = exercise_id,
                               wx_order_index = exercise_order,
                               wx_note = note_of (py_strip (dict_get first_row ''Notes'' [])),
                               wx_performed_at = performed_at,
                               wx_completed_at = performed_at\<rparr>],
                           workout_exercises :=
                             dict_set (workout_exercises st) (workout_id, exercise_id) we_id,
                           uid_count := Suc (uid_count st),
                           clock := clk\<rparr>)))))"

fun process_exercises ::
  "runtime \<Rightarrow> string \<Rightarrow> nat \<Rightarrow> int \<Rightarrow> (string \<times> row list) list \<Rightarrow> nat \<Rightarrow> conv_state
     \<Rightarrow> exn + conv_state"
where
  "process_exercises env date_str workout_id workout_started_at [] exercise_order st = Inr st"
| "process_exercises env date_str workout_id workout_started_at
     ((exercise_name, exercise_rows) # groups) exercise_order st =
     (case ensure_exercise exercise_name workout_started_at st of
        (exercise_id, st1) \<Rightarrow>
     (case ensure_workout_exercise env date_str workout_id exercise_id exercise_rows
             exercise_order st1 of
        Inl e \<Rightarrow> Inl e
      | Inr (we_id, exercise_order', st2) \<Rightarrow>
     (case insert_sets env date_str workout_id exercise_id we_id exercise_rows 0 st2 of
        Inl e \<Rightarrow> Inl e
      | Inr st3 \<Rightarrow>
          process_exercises env date_str workout_id workout_started_at groups
            exercise_order' st3)))"

definition process_day ::
  "runtime \<Rightarrow> (string \<times> row list) list \<Rightarrow> string \<Rightarrow> conv_state \<Rightarrow> exn + conv_state"
where
  "process_day env rows_by_date date_str st =
     (let day_rows = dict_get rows_by_date date_str [] in
      case py_min (map (\<lambda>row. dict_get row ''Time'' ''00:00'') day_rows) of
        Inl e \<Rightarrow> Inl e
      | Inr earliest_time \<Rightarrow>
     (case py_max (map (\<lambda>row. dict_get row ''Time'' ''00:00'') day_rows) of
        Inl e \<Rightarrow> Inl e
      | Inr latest_time \<Rightarrow>
     (case parse_datetime env date_str earliest_time (clock st) of
        Inl e \<Rightarrow> Inl e
      | Inr (workout_started_at, clk1) \<Rightarrow>
     (case parse_datetime env date_str latest_time clk1 of
        Inl e \<Rightarrow> Inl e
      | Inr (workout_completed_at, clk2) \<Rightarrow>
          (let workout_id = Suc (length (workouts_tbl st)) in
           process_exercises env date_str workout_id workout_started_at
             (group_by_exercise day_rows) 0
             (st\<lparr>workouts_tbl := workouts_tbl st @
                   [\<lparr>w_id = workout_id, w_uid = uid_count st,
                     w_started_at = workout_started_at,
                     w_completed_at = workout_completed_at\<rparr>],
                 workouts := dict_set (workouts st) date_str workout_id,
                 uid_count := Suc (uid_count st),
                 clock := clk2\<rparr>))))))"

fun process_days ::
  "runtime \<Rightarrow> (string \<times> row list) list \<Rightarrow> string list \<Rightarrow> conv_state \<Rightarrow> exn + conv_state"
where
  "process_days env rows_by_date [] st = Inr st"
| "process_days env rows_by_date (date_str # dates) st =
     (case process_day env rows_by_date date_str st of
        Inl e \<Rightarrow> Inl e
      | Inr st1 \<Rightarrow> process_days env rows_by_date dates st1)"

definition sorted_dates :: "(string \<times> row list) list \<Rightarrow> string list" where
  "sorted_dates rows_by_date = rev (sort (map fst rows_by_date))"

definition build_hierarchy :: "runtime \<Rightarrow> row list \<Rightarrow> exn + conv_state" where
  "build_hierarchy env rows =
     process_days env (group_by_date rows) (sorted_dates (group_by_date rows)) init_state"

text \<open>
  \<open>convert_rows\<close> is the body of \<^verbatim>\<open>convert_csv_to_db\<close> after \<^verbatim>\<open>read_csv\<close> has returned. Its
  second argument and second result are the file at \<^verbatim>\<open>db_path\<close> (\<open>None\<close> when there is none).
  The inserts run inside the transaction that the final \<^verbatim>\<open>conn.commit()\<close> closes, so a run that
  dies on an exception leaves the freshly created schema with no data rows.
\<close>

definition convert_rows ::
  "runtime \<Rightarrow> row list \<Rightarrow> database option \<Rightarrow> (error + conv_state) \<times> database option"
where
  "convert_rows env rows db_file =
     (if rows = [] then (Inl (SystemExit 1), db_file)
      else (case build_hierarchy env rows of
              Inl x \<Rightarrow> (Inl (Uncaught x), Some empty_database)
            | Inr st \<Rightarrow> (Inr st, Some (committed st))))"

definition convert_csv_to_db ::
  "runtime \<Rightarrow> string list \<Rightarrow> string list list \<Rightarrow> database option
     \<Rightarrow> (error + conv_state) \<times> database option"
where
  "convert_csv_to_db env fieldnames data db_file =
     convert_rows env (read_csv fieldnames data) db_file"

text \<open>The exit status of the process: an uncaught exception ends the interpreter with 1.\<close>

fun exit_status :: "error + 'a \<Rightarrow> nat" where
  "exit_status (Inl (SystemExit n)) = n"
| "exit_status (Inl (Uncaught x)) = 1"
| "exit_status (Inr _) = 0"

section \<open>Notions used to state and prove the properties\<close>

text \<open>
  \<open>first_seen\<close> keeps the first occurrence of every element of a list. \<open>group_rows\<close> is the
  common shape of the two grouping passes. The \<open>add_\<close> functions are the four kinds of
  insert the script performs, \<open>step\<close> relates a state to the state after one insert made
  the way the script makes it, and the \<open>inv_\<close> predicates are kept by every step.
  \<open>plan rows\<close> lists the records in the order in which the nested iteration over dates,
  exercise names and records visits them, each with the date of its group and its trimmed
  exercise name.
\<close>

fun first_seen_from :: "'a list \<Rightarrow> 'a list \<Rightarrow> 'a list" where
  "first_seen_from seen [] = seen"
| "first_seen_from seen (x # xs) = first_seen_from (if x \<in> set seen then seen else seen @ [x]) xs"

definition first_seen :: "'a list \<Rightarrow> 'a list" where
  "first_seen xs = first_seen_from [] xs"

definition group_rows :: "(row \<Rightarrow> string) \<Rightarrow> row list \<Rightarrow> (string \<times> row list) list \<Rightarrow> (string \<times> row list) list" where
  "group_rows key rows acc = fold (\<lambda>row d. if key row \<noteq> [] then dict_append d (key row) row else d) rows acc"

definition add_workout :: "string \<Rightarrow> workout_row \<Rightarrow> nat \<Rightarrow> conv_state \<Rightarrow> conv_state" where
  "add_workout d w clk st =
     st\<lparr>workouts_tbl := workouts_tbl st @ [w], workouts := dict_set (workouts st) d (w_id w),
        uid_count := Suc (uid_count st), clock := clk\<rparr>"

definition add_exercise :: "exercise_row \<Rightarrow> conv_state \<Rightarrow> conv_state" where
  "add_exercise e st =
     st\<lparr>exercises_tbl := exercises_tbl st @ [e],
        exercises := dict_set (exercises st) (e_name e) (e_id e),
        uid_count := Suc (uid_count st)\<rparr>"

definition add_workout_exercise :: "workout_exercise_row \<Rightarrow> nat \<Rightarrow> conv_state \<Rightarrow> conv_state" where
  "add_workout_exercise x clk st =
     st\<lparr>workout_exercises_tbl := workout_exercises_tbl st @ [x],
        workout_exercises :=
          dict_set (workout_exercises st) (wx_workout_id x, wx_exercise_id x) (wx_id x),
        uid_count := Suc (uid_count st), clock := clk\<rparr>"

definition add_set :: "set_row \<Rightarrow> nat \<Rightarrow> conv_state \<Rightarrow> conv_state" where
  "add_set s clk st =
     st\<lparr>sets_tbl := sets_tbl st @ [s], set_count := Suc (set_count st),
        uid_count := Suc (uid_count st), clock := clk\<rparr>"

inductive step :: "conv_state \<Rightarrow> conv_state \<Rightarrow> bool" where
  step_workout:
    "map_of (workouts st) d = None \<Longrightarrow> w_id w = Suc (length (workouts_tbl st)) \<Longrightarrow>
     w_uid w = uid_count st \<Longrightarrow> step st (add_workout d w clk st)"
| step_exercise:
    "map_of (exercises st) (e_name e) = None \<Longrightarrow> e_id e = Suc (length (exercises_tbl st)) \<Longrightarrow>
     e_uid e = uid_count st \<Longrightarrow> step st (add_exercise e st)"
| step_workout_exercise:
    "map_of (workout_exercises st) (wx_workout_id x, wx_exercise_id x) = None \<Longrightarrow>
     wx_id x = Suc (length (workout_exercises_tbl st)) \<Longrightarrow> wx_uid x = uid_count st \<Longrightarrow>
     wx_workout_id x = length (workouts_tbl st) \<Longrightarrow>
     wx_exercise_id x \<in> snd ` set (exercises st) \<Longrightarrow>
     wx_order_index x =
       length (filter (\<lambda>y. wx_workout_id y = wx_workout_id x) (workout_exercises_tbl st)) \<Longrightarrow>
     step st (add_workout_exercise x clk st)"
| step_set:
    "map_of (workout_exercises st) (s_workout_id s, s_exercise_id s) = Some (s_workout_exercise_id s) \<Longrightarrow>
     s_id s = Suc (length (sets_tbl st)) \<Longrightarrow> s_uid s = uid_count st \<Longrightarrow>
     s_workout_id s = length (workouts_tbl st) \<Longrightarrow> step st (add_set s clk st)"

definition inv_ids :: "conv_state \<Rightarrow> bool" where
  "inv_ids st =
     (map e_id (exercises_tbl st) = [1..<Suc (length (exercises_tbl st))] \<and>
      map w_id (workouts_tbl st) = [1..<Suc (length (workouts_tbl st))] \<and>
      map wx_id (workout_exercises_tbl st) = [1..<Suc (length (workout_exercises_tbl st))] \<and>
      map s_id (sets_tbl st) = [1..<Suc (length (sets_tbl st))] \<and>
      set_count st = length (sets_tbl st))"

definition inv_dicts :: "conv_state \<Rightarrow> bool" where
  "inv_dicts st =
     (exercises st = map (\<lambda>e. (e_name e, e_id e)) (exercises_tbl st) \<and>
      distinct (map e_name (exercises_tbl st)) \<and>
      workout_exercises st =
        map (\<lambda>x. ((wx_workout_id x, wx_exercise_id x), wx_id x)) (workout_exercises_tbl st) \<and>
      distinct (map (\<lambda>x. (wx_workout_id x, wx_exercise_id x)) (workout_exercises_tbl st)) \<and>
      map snd (workouts st) = map w_id (workouts_tbl st) \<and>
      distinct (map fst (workouts st)))"

definition inv_refs :: "conv_state \<Rightarrow> bool" where
  "inv_refs st =
     ((\<forall>x \<in> set (workout_exercises_tbl st).
         wx_workout_id x \<le> length (workouts_tbl st) \<and>
         wx_exercise_id x \<in> set (map e_id (exercises_tbl st))) \<and>
      (\<forall>s \<in> set (sets_tbl st). \<exists>x \<in> set (workout_exercises_tbl st).
         wx_id x = s_workout_exercise_id s \<and> wx_workout_id x = s_workout_id s \<and>
         wx_exercise_id x = s_exercise_id s))"

definition owned :: "conv_state \<Rightarrow> (nat \<times> nat) list" where
  "owned st =
     map (\<lambda>w. (w_id w, w_uid w)) (workouts_tbl st) @
     map (\<lambda>x. (wx_workout_id x, wx_uid x)) (workout_exercises_tbl st) @
     map (\<lambda>s. (s_workout_id s, s_uid s)) (sets_tbl st)"

definition inv_order :: "conv_state \<Rightarrow> bool" where
  "inv_order st =
     ((\<forall>p \<in> set (owned st). fst p \<le> length (workouts_tbl st) \<and> snd p < uid_count st) \<and>
      (\<forall>p \<in> set (owned st). \<forall>q \<in> set (owned st). fst p < fst q \<longrightarrow> snd p < snd q))"

definition inv_dense :: "conv_state \<Rightarrow> bool" where
  "inv_dense st =
     (\<forall>w. map wx_order_index (filter (\<lambda>x. wx_workout_id x = w) (workout_exercises_tbl st)) =
          [0..<length (filter (\<lambda>x. wx_workout_id x = w) (workout_exercises_tbl st))])"

definition set_of_row ::
  "runtime \<Rightarrow> string \<Rightarrow> nat \<Rightarrow> nat \<Rightarrow> nat \<Rightarrow> nat \<Rightarrow> row \<Rightarrow> set_row \<Rightarrow> bool" where
  "set_of_row env date_str workout_id exercise_id we_id set_index r s =
     (s_workout_id s = workout_id \<and> s_exercise_id s = exercise_id \<and>
      s_workout_exercise_id s = we_id \<and> s_set_index s = set_index \<and>
      (\<exists>weight. parse_field (py_float env) (py_strip (dict_get r ''Weight'' [])) = Inr weight \<and>
         s_weight_kg s = sqlite_real weight) \<and>
      (\<exists>reps. parse_field (py_int env) (py_strip (dict_get r ''# of Reps'' [])) = Inr reps \<and>
         sqlite_integer reps = Inr (s_reps s)) \<and>
      s_note s = note_of (py_strip (dict_get r ''Notes'' [])) \<and> s_is_warmup s = 0 \<and>
      (\<exists>clk clk'. parse_datetime env (dict_get r ''Date'' date_str)
                     (dict_get r ''Time'' ''00:00'') clk = Inr (s_performed_at s, clk')))"

definition inv_seq :: "conv_state \<Rightarrow> bool" where
  "inv_seq st =
     (sorted_wrt (<) (map w_uid (workouts_tbl st)) \<and>
      sorted_wrt (<) (map wx_uid (workout_exercises_tbl st)) \<and>
      sorted_wrt (<) (map s_uid (sets_tbl st)))"

definition inv_all :: "conv_state \<Rightarrow> bool" where
  "inv_all st =
     (inv_ids st \<and> inv_dicts st \<and> inv_refs st \<and> inv_order st \<and> inv_dense st \<and> inv_seq st)"

definition wx_of_group ::
  "runtime \<Rightarrow> string \<Rightarrow> nat \<Rightarrow> nat \<Rightarrow> nat \<Rightarrow> row \<Rightarrow> workout_exercise_row \<Rightarrow> bool" where
  "wx_of_group env date_str workout_id exercise_id exercise_order first_row x =
     (wx_workout_id x = workout_id \<and> wx_exercise_id x = exercise_id \<and>
      wx_order_index x = exercise_order \<and>
      wx_note x = note_of (py_strip (dict_get first_row ''Notes'' [])) \<and>
      wx_completed_at x = wx_performed_at x \<and>
      (\<exists>clk clk'. parse_datetime env (dict_get first_row ''Date'' date_str)
                     (dict_get first_row ''Time'' ''00:00'') clk = Inr (wx_performed_at x, clk')))"

definition workout_of_day :: "runtime \<Rightarrow> string \<Rightarrow> row list \<Rightarrow> workout_row \<Rightarrow> bool" where
  "workout_of_day env date_str day_rows w =
     ((\<exists>clk clk'. parse_datetime env date_str
                     (Min (set (map (\<lambda>row. dict_get row ''Time'' ''00:00'') day_rows))) clk =
                   Inr (w_started_at w, clk')) \<and>
      (\<exists>clk clk'. parse_datetime env date_str
                     (Max (set (map (\<lambda>row. dict_get row ''Time'' ''00:00'') day_rows))) clk =
                   Inr (w_completed_at w, clk')))"

definition group_plan :: "(string \<times> row list) list \<Rightarrow> (string \<times> row) list" where
  "group_plan groups = concat (map (\<lambda>(n, ers). map (Pair n) ers) groups)"

definition set_in_group ::
  "runtime \<Rightarrow> conv_state \<Rightarrow> string \<Rightarrow> nat \<Rightarrow> set_row \<Rightarrow> string \<times> row \<Rightarrow> bool" where
  "set_in_group env st d wid s nr =
     (\<exists>eid weid i. map_of (exercises st) (fst nr) = Some eid \<and>
        map_of (workout_exercises st) (wid, eid) = Some weid \<and>
        set_of_row env d wid eid weid i (snd nr) s)"

definition link_of_group ::
  "runtime \<Rightarrow> conv_state \<Rightarrow> string \<Rightarrow> nat \<Rightarrow> workout_exercise_row \<Rightarrow> string \<times> row list \<Rightarrow> bool"
where
  "link_of_group env st d wid x g =
     (\<exists>eid i. map_of (exercises st) (fst g) = Some eid \<and> snd g \<noteq> [] \<and>
        wx_of_group env d wid eid i (hd (snd g)) x)"

definition day_plan :: "(string \<times> row list) list \<Rightarrow> string list \<Rightarrow> (string \<times> string \<times> row) list" where
  "day_plan rows_by_date dates =
     concat (map (\<lambda>d. map (Pair d) (group_plan (group_by_exercise (dict_get rows_by_date d []))))
               dates)"

definition set_in_plan :: "runtime \<Rightarrow> conv_state \<Rightarrow> set_row \<Rightarrow> string \<times> string \<times> row \<Rightarrow> bool" where
  "set_in_plan env st s dnr =
     (\<exists>wid. map_of (workouts st) (fst dnr) = Some wid \<and>
        set_in_group env st (fst dnr) wid s (snd dnr))"

definition date_of :: "row \<Rightarrow> string" where
  "date_of r = dict_get r ''Date'' []"

definition exercise_of :: "row \<Rightarrow> string" where
  "exercise_of r = py_strip (dict_get r ''Exercise'' [])"

definition plan :: "row list \<Rightarrow> (string \<times> string \<times> row) list" where
  "plan rows = day_plan (group_by_date rows) (sorted_dates (group_by_date rows))"

definition numeric_ok :: "runtime \<Rightarrow> row \<Rightarrow> bool" where
  "numeric_ok env r =
     ((py_strip (dict_get r ''Weight'' []) = [] \<or>
         py_float env (py_strip (dict_get r ''Weight'' [])) \<noteq> None) \<and>
      (py_strip (dict_get r ''# of Reps'' []) = [] \<or>
         (case py_int env (py_strip (dict_get r ''# of Reps'' [])) of
            None \<Rightarrow> False
          | Some n \<Rightarrow> - (2 ^ 63) \<le> n \<and> n < 2 ^ 63)))"

definition example_header :: "string list" where
  "example_header = [''Date'', ''Time'', ''Exercise'', ''# of Reps'', ''Weight'', ''Notes'']"

definition example_data :: "string list list" where
  "example_data =
     [[''19/01/2026'', ''18:30'', ''Bicep Curl'', ''6'', ''50'', ''''],
      [''19/01/2026'', ''18:40'', ''Squat'', ''5'', ''100'', ''heavy''],
      [''19/01/2026'', ''18:45'', ''Bicep Curl'', ''8'', ''52.5'', ''Right''],
      [''02/02/2026'', ''07:10'', ''Squat'', '''', '''', ''''],
      ['''', ''07:20'', ''Deadlift'', ''abc'', ''heavy'', ''''],
      [''02/02/2026'', ''07:30'', ''  '', ''3'', ''20'', ''''],
      [''someday'', ''late'', ''Plank'', '''', '''', '''']]"

definition example_rows :: "row list" where
  "example_rows = read_csv example_header example_data"

definition example_state :: conv_state where
  "example_state = projr (fst (convert_rows example_runtime example_rows None))"

definition workout_uids :: "conv_state \<Rightarrow> nat \<Rightarrow> nat list" where
  "workout_uids st w =
     map w_uid (filter (\<lambda>x. w_id x = w) (workouts_tbl st)) @
     map wx_uid (filter (\<lambda>x. wx_workout_id x = w) (workout_exercises_tbl st)) @
     map s_uid (filter (\<lambda>x. s_workout_id x = w) (sets_tbl st))"

definition two_day_rows :: "row list" where
  "two_day_rows = read_csv example_header
     [[''19/01/2026'', ''18:30'', ''Squat'', ''5'', ''100'', ''''],
      [''02/02/2026'', ''07:10'', ''Squat'', ''5'', ''100'', '''']]"

definition ascii_lower :: "char \<Rightarrow> char" where
  "ascii_lower c =
     (if CHR ''A'' \<le> c \<and> c \<le> CHR ''Z'' then char_of (of_char c + (32::nat)) else c)"

definition spaced_header :: "string list" where
  "spaced_header = ['' Date'', ''Time '', ''  Exercise'', ''# of Reps'', '' Weight '', ''Notes'']"

definition lower_header :: "string list" where
  "lower_header = [''date'', ''Time'', ''Exercise'', ''# of Reps'', ''Weight'', ''Notes'']"

definition time_of :: "row \<Rightarrow> string" where
  "time_of r = dict_get r ''Time'' ''00:00''"

definition plank_row :: row where
  "plank_row = [(''Date'', ''someday''), (''Time'', ''late''), (''Exercise'', ''Plank''),
                (''# of Reps'', []), (''Weight'', []), (''Notes'', [])]"

definition weight_of :: "row \<Rightarrow> string" where
  "weight_of r = py_strip (dict_get r ''Weight'' [])"

definition reps_of :: "row \<Rightarrow> string" where
  "reps_of r = py_strip (dict_get r ''# of Reps'' [])"

definition bad_reps_data :: "string list list" where
  "bad_reps_data = [[''19/01/2026'', ''18:30'', ''Squat'', ''abc'', ''100'', '''']]"

definition bad_reps_row :: row where
  "bad_reps_row = [(''Date'', ''19/01/2026''), (''Time'', ''18:30''), (''Exercise'', ''Squat''),
                   (''# of Reps'', ''abc''), (''Weight'', ''100''), (''Notes'', [])]"

definition dateless_bad_data :: "string list list" where
  "dateless_bad_data = [[[], ''07:20'', ''Deadlift'', ''abc'', ''heavy'', []]]"

definition dateless_bad_row :: row where
  "dateless_bad_row = [(''Date'', []), (''Time'', ''07:20''), (''Exercise'', ''Deadlift''),
                       (''# of Reps'', ''abc''), (''Weight'', ''heavy''), (''Notes'', [])]"



definition overflow_data :: "string list list" where
  "overflow_data = [[''someday'', ''late'', ''Plank'', ''9223372036854775808'', [], []]]"

definition overflow_row :: row where
  "overflow_row = [(''Date'', ''someday''), (''Time'', ''late''), (''Exercise'', ''Plank''),
                   (''# of Reps'', ''9223372036854775808''), (''Weight'', []), (''Notes'', [])]"

definition nan_data :: "string list list" where
  "nan_data = [[''19/01/2026'', ''18:30'', ''Squat'', ''5'', ''nan'', []]]"

definition nan_row :: row where
  "nan_row = [(''Date'', ''19/01/2026''), (''Time'', ''18:30''), (''Exercise'', ''Squat''),
              (''# of Reps'', ''5''), (''Weight'', ''nan''), (''Notes'', [])]"

section \<open>Properties\<close>

lemma map_of_dict_set: "map_of (dict_set d k v) = (map_of d)(k \<mapsto> v)"
  by (induction d) (auto simp: fun_eq_iff)

lemma dict_set_fresh: "map_of d k = None \<Longrightarrow> dict_set d k v = d @ [(k, v)]"
  by (induction d) (auto split: if_splits)

lemma map_of_dict_append:
  "map_of (dict_append d k x) = (map_of d)(k \<mapsto> dict_get d k [] @ [x])"
  by (induction d) (auto simp: fun_eq_iff dict_get_def)

lemma dict_get_dict_append:
  "dict_get (dict_append d k x) k' [] = (if k' = k then dict_get d k [] @ [x] else dict_get d k' [])"
  by (simp add: dict_get_def map_of_dict_append)

lemma keys_dict_append:
  "map fst (dict_append d k x) = (if k \<in> set (map fst d) then map fst d else map fst d @ [k])"
  by (induction d) force+

lemma sizes_dict_append:
  "sum_list (map (\<lambda>g. length (snd g)) (dict_append d k x)) = Suc (sum_list (map (\<lambda>g. length (snd g)) d))"
  by (induction d) auto

lemma nonempty_dict_append:
  "list_all (\<lambda>g. snd g \<noteq> []) d \<Longrightarrow> list_all (\<lambda>g. snd g \<noteq> []) (dict_append d k x)"
  by (induction d) auto

lemma group_rows_Nil [simp]: "group_rows key [] acc = acc"
  by (simp add: group_rows_def)

lemma group_rows_Cons [simp]:
  "group_rows key (r # rows) acc =
     group_rows key rows (if key r \<noteq> [] then dict_append acc (key r) r else acc)"
  by (simp add: group_rows_def)

lemma group_by_date_eq: "group_by_date rows = group_rows (\<lambda>row. dict_get row ''Date'' []) rows []"
  by (simp add: group_by_date_def group_rows_def Let_def)

lemma group_by_exercise_eq:
  "group_by_exercise rows = group_rows (\<lambda>row. py_strip (dict_get row ''Exercise'' [])) rows []"
  by (simp add: group_by_exercise_def group_rows_def Let_def)

lemma dict_get_group_rows:
  "dict_get (group_rows key rows acc) k [] =
     dict_get acc k [] @ filter (\<lambda>r. key r = k \<and> k \<noteq> []) rows"
  by (induction rows arbitrary: acc) (auto simp: dict_get_dict_append)

lemma keys_group_rows:
  "map fst (group_rows key rows acc) =
     first_seen_from (map fst acc) (filter (\<lambda>k. k \<noteq> []) (map key rows))"
  by (induction rows arbitrary: acc) (auto simp: keys_dict_append)

lemma sizes_group_rows:
  "sum_list (map (\<lambda>g. length (snd g)) (group_rows key rows acc)) =
     sum_list (map (\<lambda>g. length (snd g)) acc) + length (filter (\<lambda>r. key r \<noteq> []) rows)"
  by (induction rows arbitrary: acc) (auto simp: sizes_dict_append)

lemma nonempty_group_rows:
  "list_all (\<lambda>g. snd g \<noteq> []) acc \<Longrightarrow> list_all (\<lambda>g. snd g \<noteq> []) (group_rows key rows acc)"
  by (induction rows arbitrary: acc) (simp_all add: nonempty_dict_append)

lemma set_first_seen_from: "set (first_seen_from seen xs) = set seen \<union> set xs"
  by (induction xs arbitrary: seen) auto

lemma distinct_first_seen_from: "distinct seen \<Longrightarrow> distinct (first_seen_from seen xs)"
  by (induction xs arbitrary: seen) auto

lemma first_seen_from_append:
  "first_seen_from seen (xs @ ys) = first_seen_from (first_seen_from seen xs) ys"
  by (induction xs arbitrary: seen) auto

lemma distinct_keys_group_rows: "distinct (map fst acc) \<Longrightarrow> distinct (map fst (group_rows key rows acc))"
  by (simp add: keys_group_rows distinct_first_seen_from)

lemma group_member:
  "(k, g) \<in> set (group_rows key rows []) \<Longrightarrow> g = filter (\<lambda>r. key r = k) rows \<and> k \<noteq> [] \<and> g \<noteq> []"
proof -
  assume a: "(k, g) \<in> set (group_rows key rows [])"
  have d: "distinct (map fst (group_rows key rows []))" by (simp add: distinct_keys_group_rows)
  from a d have "map_of (group_rows key rows []) k = Some g" by simp
  then have "dict_get (group_rows key rows []) k [] = g" by (simp add: dict_get_def)
  with dict_get_group_rows[of key rows "[]" k] have g: "g = filter (\<lambda>r. key r = k \<and> k \<noteq> []) rows"
    by (simp add: dict_get_def)
  from a nonempty_group_rows[of "[]" key rows] have ne: "g \<noteq> []"
    by (auto simp: list_all_iff)
  with g have "k \<noteq> []" by auto
  with g ne show ?thesis by simp
qed

lemma step_inv_ids: "step st st' \<Longrightarrow> inv_ids st \<Longrightarrow> inv_ids st'"
  by (induction rule: step.induct)
     (simp_all add: inv_ids_def add_workout_def add_exercise_def add_workout_exercise_def add_set_def)

lemma map_of_None_iff: "map_of d k = None \<longleftrightarrow> k \<notin> fst ` set d"
  by (simp add: map_of_eq_None_iff)

lemma step_inv_dicts: "step st st' \<Longrightarrow> inv_dicts st \<Longrightarrow> inv_dicts st'"
proof (induction rule: step.induct)
  case (step_workout st d w clk)
  then show ?case
    by (auto simp: inv_dicts_def add_workout_def dict_set_fresh map_of_None_iff)
next
  case (step_exercise st e)
  then show ?case
    by (auto simp: inv_dicts_def add_exercise_def dict_set_fresh map_of_None_iff image_iff)
next
  case (step_workout_exercise st x clk)
  then show ?case
    by (auto simp: inv_dicts_def add_workout_exercise_def dict_set_fresh map_of_None_iff image_iff)
next
  case (step_set st s clk)
  then show ?case by (simp add: inv_dicts_def add_set_def)
qed

lemma step_inv_refs: "step st st' \<Longrightarrow> inv_dicts st \<Longrightarrow> inv_refs st \<Longrightarrow> inv_refs st'"
proof (induction rule: step.induct)
  case (step_workout st d w clk)
  then show ?case by (auto simp: inv_refs_def add_workout_def)
next
  case (step_exercise st e)
  then show ?case by (auto simp: inv_refs_def add_exercise_def)
next
  case (step_workout_exercise st x clk)
  from step_workout_exercise(5,7) have "wx_exercise_id x \<in> set (map e_id (exercises_tbl st))"
    by (auto simp: inv_dicts_def image_iff)
  with step_workout_exercise show ?case
    by (auto simp: inv_refs_def add_workout_exercise_def)
next
  case (step_set st s clk)
  from step_set(1,5) have "\<exists>x \<in> set (workout_exercises_tbl st).
         wx_id x = s_workout_exercise_id s \<and> wx_workout_id x = s_workout_id s \<and>
         wx_exercise_id x = s_exercise_id s"
    by (fastforce simp: inv_dicts_def dest!: map_of_SomeD)
  with step_set show ?case
    by (auto simp: inv_refs_def add_set_def)
qed

lemma step_inv_order: "step st st' \<Longrightarrow> inv_order st \<Longrightarrow> inv_order st'"
proof (induction rule: step.induct)
  case (step_workout st d w clk)
  then show ?case
    by (simp add: inv_order_def owned_def add_workout_def ball_Un) (fastforce simp: less_Suc_eq)
next
  case (step_exercise st e)
  then show ?case
    by (simp add: inv_order_def owned_def add_exercise_def ball_Un) (fastforce simp: less_Suc_eq)
next
  case (step_workout_exercise st x clk)
  then show ?case
    by (simp add: inv_order_def owned_def add_workout_exercise_def ball_Un) (fastforce simp: less_Suc_eq)
next
  case (step_set st s clk)
  then show ?case
    by (simp add: inv_order_def owned_def add_set_def ball_Un) (fastforce simp: less_Suc_eq)
qed

lemma step_inv_dense: "step st st' \<Longrightarrow> inv_dense st \<Longrightarrow> inv_dense st'"
  by (induction rule: step.induct)
     (auto simp: inv_dense_def add_workout_def add_exercise_def add_workout_exercise_def add_set_def)

lemma insert_sets_ConsE:
  assumes "insert_sets env d wid eid weid (r # rs) k st = Inr st'"
  obtains s clk where
    "set_of_row env d wid eid weid k r s"
    "s_id s = Suc (length (sets_tbl st))" "s_uid s = uid_count st"
    "insert_sets env d wid eid weid rs (Suc k) (add_set s clk st) = Inr st'"
proof -
  from assms obtain p clk where pd:
    "parse_datetime env (dict_get r ''Date'' d) (dict_get r ''Time'' ''00:00'') (clock st) =
       Inr (p, clk)"
    by (auto split: sum.splits)
  from assms pd obtain w where w:
    "parse_field (py_float env) (py_strip (dict_get r ''Weight'' [])) = Inr w"
    by (auto split: sum.splits)
  from assms pd w obtain rp where rp:
    "parse_field (py_int env) (py_strip (dict_get r ''# of Reps'' [])) = Inr rp"
    by (auto split: sum.splits)
  from assms pd w rp obtain rs' where rs': "sqlite_integer rp = Inr rs'"
    by (auto split: sum.splits)
  let ?s = "\<lparr>s_id = Suc (length (sets_tbl st)), s_uid = uid_count st,
              s_workout_id = wid, s_exercise_id = eid,
              s_workout_exercise_id = weid, s_set_index = k,
              s_weight_kg = sqlite_real w, s_reps = rs',
              s_note = note_of (py_strip (dict_get r ''Notes'' [])),
              s_performed_at = p, s_is_warmup = 0\<rparr>"
  from assms pd w rp rs'
  have rec: "insert_sets env d wid eid weid rs (Suc k) (add_set ?s clk st) = Inr st'"
    by (simp add: add_set_def)
  have sr: "set_of_row env d wid eid weid k r ?s"
    unfolding set_of_row_def using w rp rs' pd by auto
  show thesis by (rule that[OF sr _ _ rec]) simp_all
qed

lemma add_set_fields [simp]:
  "exercises_tbl (add_set s clk st) = exercises_tbl st"
  "workouts_tbl (add_set s clk st) = workouts_tbl st"
  "workout_exercises_tbl (add_set s clk st) = workout_exercises_tbl st"
  "sets_tbl (add_set s clk st) = sets_tbl st @ [s]"
  "exercises (add_set s clk st) = exercises st"
  "workouts (add_set s clk st) = workouts st"
  "workout_exercises (add_set s clk st) = workout_exercises st"
  "uid_count (add_set s clk st) = Suc (uid_count st)"
  by (simp_all add: add_set_def)

lemma insert_sets_steps:
  "insert_sets env d wid eid weid rs k st = Inr st' \<Longrightarrow> wid = length (workouts_tbl st) \<Longrightarrow>
   map_of (workout_exercises st) (wid, eid) = Some weid \<Longrightarrow> step\<^sup>*\<^sup>* st st'"
proof (induction rs arbitrary: k st)
  case Nil
  then show ?case by simp
next
  case (Cons r rs)
  from Cons.prems(1) obtain s clk where s: "set_of_row env d wid eid weid k r s"
    "s_id s = Suc (length (sets_tbl st))" "s_uid s = uid_count st"
    and rec: "insert_sets env d wid eid weid rs (Suc k) (add_set s clk st) = Inr st'"
    by (rule insert_sets_ConsE)
  from s Cons.prems(2,3) have "step st (add_set s clk st)"
    by (intro step_set) (simp_all add: set_of_row_def)
  moreover from rec Cons.prems(2,3) have "step\<^sup>*\<^sup>* (add_set s clk st) st'"
    by (intro Cons.IH) simp_all
  ultimately show ?case by simp
qed

lemma insert_sets_frame:
  "insert_sets env d wid eid weid rs k st = Inr st' \<Longrightarrow>
   exercises_tbl st' = exercises_tbl st \<and> workouts_tbl st' = workouts_tbl st \<and>
   workout_exercises_tbl st' = workout_exercises_tbl st \<and> exercises st' = exercises st \<and>
   workouts st' = workouts st \<and> workout_exercises st' = workout_exercises st"
proof (induction rs arbitrary: k st)
  case Nil
  then show ?case by simp
next
  case (Cons r rs)
  from Cons.prems(1) obtain s clk where
    rec: "insert_sets env d wid eid weid rs (Suc k) (add_set s clk st) = Inr st'"
    by (rule insert_sets_ConsE)
  from Cons.IH[OF rec] show ?case by simp
qed

lemma insert_sets_added:
  "insert_sets env d wid eid weid rs k st = Inr st' \<Longrightarrow>
   \<exists>new. sets_tbl st' = sets_tbl st @ new \<and>
         list_all2 (\<lambda>s r. \<exists>i. set_of_row env d wid eid weid i r s) new rs \<and>
         map s_set_index new = [k..<k + length rs]"
proof (induction rs arbitrary: k st)
  case Nil
  then show ?case by simp
next
  case (Cons r rs)
  from Cons.prems(1) obtain s clk where s: "set_of_row env d wid eid weid k r s"
    and rec: "insert_sets env d wid eid weid rs (Suc k) (add_set s clk st) = Inr st'"
    by (rule insert_sets_ConsE)
  from Cons.IH[OF rec] obtain new where new: "sets_tbl st' = (sets_tbl st @ [s]) @ new"
    "list_all2 (\<lambda>s r. \<exists>i. set_of_row env d wid eid weid i r s) new rs"
    "map s_set_index new = [Suc k..<Suc k + length rs]"
    by auto
  from s have k: "s_set_index s = k" by (simp add: set_of_row_def)
  have "sets_tbl st' = sets_tbl st @ (s # new)" using new(1) by simp
  moreover have "list_all2 (\<lambda>s r. \<exists>i. set_of_row env d wid eid weid i r s) (s # new) (r # rs)"
    using s new(2) by auto
  moreover have "map s_set_index (s # new) = [k..<k + length (r # rs)]"
    using k new(3) by (simp add: upt_conv_Cons del: upt_Suc)
  ultimately show ?case by blast
qed

text \<open>
  C9. When the extractor returns no record, the converter stops with exit status 1 before it
  touches the output path: the file there (or its absence) is exactly what it was.
\<close>

theorem C9_empty_extraction_keeps_output:
  assumes "read_csv fieldnames data = []"
  shows "convert_csv_to_db env fieldnames data db_file = (Inl (SystemExit 1), db_file)
         \<and> exit_status (fst (convert_csv_to_db env fieldnames data db_file)) \<noteq> 0
         \<and> snd (convert_csv_to_db env fieldnames data db_file) = db_file"
  using assms by (simp add: convert_csv_to_db_def convert_rows_def)

theorem C9_empty_extraction_keeps_output_witness:
  "read_csv [''Date'', ''Time'', ''Exercise''] [] = []
   \<and> convert_csv_to_db example_runtime [''Date'', ''Time'', ''Exercise''] []
        (Some \<lparr>exercises_tbl = [\<lparr>e_id = 1, e_uid = 7, e_name = ''Squat'', e_created_at = 0\<rparr>],
               workouts_tbl = [], workout_exercises_tbl = [], sets_tbl = []\<rparr>)
       = (Inl (SystemExit 1),
          Some \<lparr>exercises_tbl = [\<lparr>e_id = 1, e_uid = 7, e_name = ''Squat'', e_created_at = 0\<rparr>],
               workouts_tbl = [], workout_exercises_tbl = [], sets_tbl = []\<rparr>)"
proof -
  have h: "read_csv [''Date'', ''Time'', ''Exercise''] [] = []"
    by (simp add: read_csv_def)
  show ?thesis
    using h C9_empty_extraction_keeps_output [OF h, of example_runtime] by simp
qed

lemma add_exercise_fields [simp]:
  "exercises_tbl (add_exercise e st) = exercises_tbl st @ [e]"
  "workouts_tbl (add_exercise e st) = workouts_tbl st"
  "workout_exercises_tbl (add_exercise e st) = workout_exercises_tbl st"
  "sets_tbl (add_exercise e st) = sets_tbl st"
  "exercises (add_exercise e st) = dict_set (exercises st) (e_name e) (e_id e)"
  "workouts (add_exercise e st) = workouts st"
  "workout_exercises (add_exercise e st) = workout_exercises st"
  "uid_count (add_exercise e st) = Suc (uid_count st)"
  by (simp_all add: add_exercise_def)

lemma add_workout_exercise_fields [simp]:
  "exercises_tbl (add_workout_exercise x clk st) = exercises_tbl st"
  "workouts_tbl (add_workout_exercise x clk st) = workouts_tbl st"
  "workout_exercises_tbl (add_workout_exercise x clk st) = workout_exercises_tbl st @ [x]"
  "sets_tbl (add_workout_exercise x clk st) = sets_tbl st"
  "exercises (add_workout_exercise x clk st) = exercises st"
  "workouts (add_workout_exercise x clk st) = workouts st"
  "workout_exercises (add_workout_exercise x clk st) =
     dict_set (workout_exercises st) (wx_workout_id x, wx_exercise_id x) (wx_id x)"
  "uid_count (add_workout_exercise x clk st) = Suc (uid_count st)"
  by (simp_all add: add_workout_exercise_def)

lemma add_workout_fields [simp]:
  "exercises_tbl (add_workout d w clk st) = exercises_tbl st"
  "workouts_tbl (add_workout d w clk st) = workouts_tbl st @ [w]"
  "workout_exercises_tbl (add_workout d w clk st) = workout_exercises_tbl st"
  "sets_tbl (add_workout d w clk st) = sets_tbl st"
  "exercises (add_workout d w clk st) = exercises st"
  "workouts (add_workout d w clk st) = dict_set (workouts st) d (w_id w)"
  "workout_exercises (add_workout d w clk st) = workout_exercises st"
  "uid_count (add_workout d w clk st) = Suc (uid_count st)"
  by (simp_all add: add_workout_def)

lemma step_inv_seq: "step st st' \<Longrightarrow> inv_order st \<Longrightarrow> inv_seq st \<Longrightarrow> inv_seq st'"
proof (induction rule: step.induct)
  case (step_workout st d w clk)
  then show ?case
    by (fastforce simp: inv_seq_def inv_order_def owned_def sorted_wrt_append ball_Un)
next
  case (step_exercise st e)
  then show ?case by (simp add: inv_seq_def)
next
  case (step_workout_exercise st x clk)
  then show ?case
    by (fastforce simp: inv_seq_def inv_order_def owned_def sorted_wrt_append ball_Un)
next
  case (step_set st s clk)
  then show ?case
    by (fastforce simp: inv_seq_def inv_order_def owned_def sorted_wrt_append ball_Un)
qed

lemma step_inv: "step st st' \<Longrightarrow> inv_all st \<Longrightarrow> inv_all st'"
  by (simp add: inv_all_def step_inv_ids step_inv_dicts step_inv_refs step_inv_order step_inv_dense
      step_inv_seq)

lemma steps_inv: "step\<^sup>*\<^sup>* st st' \<Longrightarrow> inv_all st \<Longrightarrow> inv_all st'"
  by (induction rule: rtranclp_induct) (auto intro: step_inv)

lemma inv_init: "inv_all init_state"
  by (simp add: inv_all_def inv_ids_def inv_dicts_def inv_refs_def inv_order_def inv_dense_def
      inv_seq_def owned_def init_state_def)

lemma ensure_exercise_cases:
  obtains (found) eid where "map_of (exercises st) n = Some eid"
      "ensure_exercise n ts st = (eid, st)"
  | (created) e where "map_of (exercises st) n = None" "e_name e = n"
      "e_id e = Suc (length (exercises_tbl st))" "e_uid e = uid_count st" "e_created_at e = ts"
      "ensure_exercise n ts st = (e_id e, add_exercise e st)"
proof (cases "map_of (exercises st) n")
  case None
  let ?e = "\<lparr>e_id = Suc (length (exercises_tbl st)), e_uid = uid_count st, e_name = n,
              e_created_at = ts\<rparr>"
  have "ensure_exercise n ts st = (e_id ?e, add_exercise ?e st)"
    using None by (simp add: ensure_exercise_def add_exercise_def)
  with None show thesis by (intro created[of ?e]) simp_all
next
  case (Some eid)
  then show thesis by (intro found[of eid]) (simp_all add: ensure_exercise_def)
qed

lemma ensure_workout_exercise_cases:
  assumes "ensure_workout_exercise env d wid eid ers k st = Inr (weid, k', st')"
  obtains (found) "map_of (workout_exercises st) (wid, eid) = Some weid" "k' = k" "st' = st"
  | (created) x clk r rest where "map_of (workout_exercises st) (wid, eid) = None"
      "ers = r # rest" "wx_of_group env d wid eid k r x"
      "wx_id x = Suc (length (workout_exercises_tbl st))" "wx_uid x = uid_count st"
      "weid = wx_id x" "k' = Suc k" "st' = add_workout_exercise x clk st"
proof (cases "map_of (workout_exercises st) (wid, eid)")
  case (Some a)
  with assms show thesis by (intro found) (simp_all add: ensure_workout_exercise_def)
next
  case None
  with assms obtain r rest where ers: "ers = r # rest"
    by (cases ers) (simp_all add: ensure_workout_exercise_def)
  from assms None ers obtain p clk where pd:
    "parse_datetime env (dict_get r ''Date'' d) (dict_get r ''Time'' ''00:00'') (clock st) =
       Inr (p, clk)"
    by (auto simp: ensure_workout_exercise_def split: sum.splits)
  let ?x = "\<lparr>wx_id = Suc (length (workout_exercises_tbl st)), wx_uid = uid_count st,
              wx_workout_id = wid, wx_exercise_id = eid, wx_order_index = k,
              wx_note = note_of (py_strip (dict_get r ''Notes'' [])),
              wx_performed_at = p, wx_completed_at = p\<rparr>"
  from assms None ers pd have res: "weid = wx_id ?x" "k' = Suc k"
    "st' = add_workout_exercise ?x clk st"
    by (auto simp: ensure_workout_exercise_def add_workout_exercise_def Let_def)
  have wg: "wx_of_group env d wid eid k r ?x"
    unfolding wx_of_group_def using pd by auto
  show thesis by (rule created[OF None ers wg _ _ res]) simp_all
qed

lemma process_exercises_ConsE:
  assumes "process_exercises env d wid ts ((n, ers) # groups) k st = Inr st'"
  obtains eid st1 weid k' st2 st3 where
    "ensure_exercise n ts st = (eid, st1)"
    "ensure_workout_exercise env d wid eid ers k st1 = Inr (weid, k', st2)"
    "insert_sets env d wid eid weid ers 0 st2 = Inr st3"
    "process_exercises env d wid ts groups k' st3 = Inr st'"
  using assms by (auto split: prod.splits sum.splits)

lemma ensure_exercise_steps:
  assumes "ensure_exercise n ts st = (eid, st1)"
  shows "step\<^sup>*\<^sup>* st st1 \<and> map_of (exercises st1) n = Some eid \<and>
         workouts_tbl st1 = workouts_tbl st \<and>
         workout_exercises_tbl st1 = workout_exercises_tbl st \<and>
         workout_exercises st1 = workout_exercises st \<and> workouts st1 = workouts st \<and>
         sets_tbl st1 = sets_tbl st"
proof (cases rule: ensure_exercise_cases[of st n ts])
  case (found eid')
  with assms show ?thesis by simp
next
  case (created e)
  then have "step st (add_exercise e st)" by (intro step_exercise) simp_all
  with created assms show ?thesis by (auto simp: map_of_dict_set)
qed

lemma ensure_workout_exercise_steps:
  assumes "ensure_workout_exercise env d wid eid ers k st = Inr (weid, k', st2)"
    and "wid = length (workouts_tbl st)"
    and "k = length (filter (\<lambda>y. wx_workout_id y = wid) (workout_exercises_tbl st))"
    and "map_of (exercises st) n = Some eid"
  shows "step\<^sup>*\<^sup>* st st2 \<and> map_of (workout_exercises st2) (wid, eid) = Some weid \<and>
         workouts_tbl st2 = workouts_tbl st \<and> exercises_tbl st2 = exercises_tbl st \<and>
         exercises st2 = exercises st \<and> workouts st2 = workouts st \<and>
         sets_tbl st2 = sets_tbl st \<and>
         k' = length (filter (\<lambda>y. wx_workout_id y = wid) (workout_exercises_tbl st2))"
  using assms(1)
proof (cases rule: ensure_workout_exercise_cases)
  case found
  with assms show ?thesis by simp
next
  case (created x clk r rest)
  from assms(4) have "eid \<in> snd ` set (exercises st)"
    by (force dest: map_of_SomeD)
  with created assms(2,3) have "step st (add_workout_exercise x clk st)"
    by (intro step_workout_exercise) (simp_all add: wx_of_group_def)
  with created assms(2,3) show ?thesis
    by (auto simp: map_of_dict_set wx_of_group_def)
qed

lemma process_exercises_steps:
  "process_exercises env d wid ts groups k st = Inr st' \<Longrightarrow> wid = length (workouts_tbl st) \<Longrightarrow>
   k = length (filter (\<lambda>y. wx_workout_id y = wid) (workout_exercises_tbl st)) \<Longrightarrow>
   step\<^sup>*\<^sup>* st st'"
proof (induction groups arbitrary: k st)
  case Nil
  then show ?case by simp
next
  case (Cons g groups)
  obtain n ers where g: "g = (n, ers)" by (cases g)
  from Cons.prems(1)[unfolded g] obtain eid st1 weid k' st2 st3 where
    e: "ensure_exercise n ts st = (eid, st1)" and
    x: "ensure_workout_exercise env d wid eid ers k st1 = Inr (weid, k', st2)" and
    s: "insert_sets env d wid eid weid ers 0 st2 = Inr st3" and
    rec: "process_exercises env d wid ts groups k' st3 = Inr st'"
    by (rule process_exercises_ConsE)
  note e' = ensure_exercise_steps[OF e]
  from e' Cons.prems(2,3) have
    x': "step\<^sup>*\<^sup>* st1 st2 \<and> map_of (workout_exercises st2) (wid, eid) = Some weid \<and>
         workouts_tbl st2 = workouts_tbl st1 \<and> exercises_tbl st2 = exercises_tbl st1 \<and>
         exercises st2 = exercises st1 \<and> workouts st2 = workouts st1 \<and>
         sets_tbl st2 = sets_tbl st1 \<and>
         k' = length (filter (\<lambda>y. wx_workout_id y = wid) (workout_exercises_tbl st2))"
    by (intro ensure_workout_exercise_steps[OF x, of n]) simp_all
  from x' e' Cons.prems(2) have s': "step\<^sup>*\<^sup>* st2 st3"
    by (intro insert_sets_steps[OF s]) simp_all
  note f = insert_sets_frame[OF s]
  from rec f x' e' Cons.prems(2) have "step\<^sup>*\<^sup>* st3 st'"
    by (intro Cons.IH) simp_all
  with e' x' s' show ?case by (meson rtranclp_trans)
qed

lemma py_min_E:
  assumes "py_min xs = Inr m"
  obtains "xs \<noteq> []" "m = Min (set xs)"
  using assms Min.set_eq_fold[of "hd xs" "tl xs"] by (cases xs) auto

lemma py_max_E:
  assumes "py_max xs = Inr m"
  obtains "xs \<noteq> []" "m = Max (set xs)"
  using assms Max.set_eq_fold[of "hd xs" "tl xs"] by (cases xs) auto

lemma process_day_E:
  assumes "process_day env rbd d st = Inr st'"
  obtains w clk where "dict_get rbd d [] \<noteq> []"
    "workout_of_day env d (dict_get rbd d []) w"
    "w_id w = Suc (length (workouts_tbl st))" "w_uid w = uid_count st"
    "process_exercises env d (w_id w) (w_started_at w) (group_by_exercise (dict_get rbd d [])) 0
       (add_workout d w clk st) = Inr st'"
proof -
  let ?rows = "dict_get rbd d []"
  let ?times = "map (\<lambda>row. dict_get row ''Time'' ''00:00'') ?rows"
  from assms obtain lo where lo: "py_min ?times = Inr lo"
    by (auto simp: process_day_def Let_def split: sum.splits)
  from assms lo obtain hi where hi: "py_max ?times = Inr hi"
    by (auto simp: process_day_def Let_def split: sum.splits)
  from assms lo hi obtain a c1 where a: "parse_datetime env d lo (clock st) = Inr (a, c1)"
    by (auto simp: process_day_def Let_def split: sum.splits)
  from assms lo hi a obtain b c2 where b: "parse_datetime env d hi c1 = Inr (b, c2)"
    by (auto simp: process_day_def Let_def split: sum.splits)
  let ?w = "\<lparr>w_id = Suc (length (workouts_tbl st)), w_uid = uid_count st,
              w_started_at = a, w_completed_at = b\<rparr>"
  from lo have ne: "?rows \<noteq> []" and lo': "lo = Min (set ?times)"
    by (auto elim: py_min_E)
  from hi have hi': "hi = Max (set ?times)" by (auto elim: py_max_E)
  have wd: "workout_of_day env d ?rows ?w"
    unfolding workout_of_day_def using a b lo' hi' by auto
  from assms lo hi a b
  have rec: "process_exercises env d (w_id ?w) (w_started_at ?w) (group_by_exercise ?rows) 0
       (add_workout d ?w c2 st) = Inr st'"
    by (simp add: process_day_def Let_def add_workout_def)
  show thesis by (rule that[OF ne wd _ _ rec]) simp_all
qed

lemma process_day_steps:
  assumes "process_day env rbd d st = Inr st'" "inv_all st" "map_of (workouts st) d = None"
  shows "step\<^sup>*\<^sup>* st st'"
proof -
  from assms(1) obtain w clk where w: "w_id w = Suc (length (workouts_tbl st))"
    "w_uid w = uid_count st" and
    rec: "process_exercises env d (w_id w) (w_started_at w) (group_by_exercise (dict_get rbd d [])) 0
       (add_workout d w clk st) = Inr st'"
    by (rule process_day_E)
  from w assms(3) have 1: "step st (add_workout d w clk st)" by (intro step_workout)
  from assms(2) have "\<forall>x \<in> set (workout_exercises_tbl st). wx_workout_id x \<le> length (workouts_tbl st)"
    by (simp add: inv_all_def inv_refs_def)
  then have "filter (\<lambda>y. wx_workout_id y = w_id w) (workout_exercises_tbl st) = []"
    using w(1) by (auto simp: filter_empty_conv)
  with w have "step\<^sup>*\<^sup>* (add_workout d w clk st) st'"
    by (intro process_exercises_steps[OF rec]) simp_all
  with 1 show ?thesis by simp
qed

lemma step_workouts_mono:
  "step st st' \<Longrightarrow> map_of (workouts st) d = Some i \<Longrightarrow> map_of (workouts st') d = Some i"
  by (induction rule: step.induct) (auto simp: map_of_dict_set)

lemma step_exercises_mono:
  "step st st' \<Longrightarrow> map_of (exercises st) n = Some i \<Longrightarrow> map_of (exercises st') n = Some i"
  by (induction rule: step.induct) (auto simp: map_of_dict_set)

lemma step_workout_exercises_mono:
  "step st st' \<Longrightarrow> map_of (workout_exercises st) k = Some i \<Longrightarrow>
   map_of (workout_exercises st') k = Some i"
  by (induction rule: step.induct) (auto simp: map_of_dict_set)

lemma steps_workouts_mono:
  "step\<^sup>*\<^sup>* st st' \<Longrightarrow> map_of (workouts st) d = Some i \<Longrightarrow> map_of (workouts st') d = Some i"
  by (induction rule: rtranclp_induct) (auto intro: step_workouts_mono)

lemma steps_exercises_mono:
  "step\<^sup>*\<^sup>* st st' \<Longrightarrow> map_of (exercises st) n = Some i \<Longrightarrow> map_of (exercises st') n = Some i"
  by (induction rule: rtranclp_induct) (auto intro: step_exercises_mono)

lemma steps_workout_exercises_mono:
  "step\<^sup>*\<^sup>* st st' \<Longrightarrow> map_of (workout_exercises st) k = Some i \<Longrightarrow>
   map_of (workout_exercises st') k = Some i"
  by (induction rule: rtranclp_induct) (auto intro: step_workout_exercises_mono)

lemma process_exercises_iter:
  assumes "process_exercises env d wid ts ((n, ers) # groups) k st = Inr st'"
    and "wid = length (workouts_tbl st)"
    and "k = length (filter (\<lambda>y. wx_workout_id y = wid) (workout_exercises_tbl st))"
  obtains eid weid k' st1 st2 st3 where
    "ensure_exercise n ts st = (eid, st1)"
    "ensure_workout_exercise env d wid eid ers k st1 = Inr (weid, k', st2)"
    "insert_sets env d wid eid weid ers 0 st2 = Inr st3"
    "process_exercises env d wid ts groups k' st3 = Inr st'"
    "wid = length (workouts_tbl st3)"
    "k' = length (filter (\<lambda>y. wx_workout_id y = wid) (workout_exercises_tbl st3))"
    "step\<^sup>*\<^sup>* st st3" "step\<^sup>*\<^sup>* st3 st'"
    "map_of (exercises st3) n = Some eid"
    "map_of (workout_exercises st3) (wid, eid) = Some weid"
    "workouts st3 = workouts st" "workouts_tbl st3 = workouts_tbl st"
proof -
  from assms(1) obtain eid st1 weid k' st2 st3 where
    e: "ensure_exercise n ts st = (eid, st1)" and
    x: "ensure_workout_exercise env d wid eid ers k st1 = Inr (weid, k', st2)" and
    s: "insert_sets env d wid eid weid ers 0 st2 = Inr st3" and
    rec: "process_exercises env d wid ts groups k' st3 = Inr st'"
    by (rule process_exercises_ConsE)
  note e' = ensure_exercise_steps[OF e]
  from e' assms(2,3) have
    x': "step\<^sup>*\<^sup>* st1 st2 \<and> map_of (workout_exercises st2) (wid, eid) = Some weid \<and>
         workouts_tbl st2 = workouts_tbl st1 \<and> exercises_tbl st2 = exercises_tbl st1 \<and>
         exercises st2 = exercises st1 \<and> workouts st2 = workouts st1 \<and>
         sets_tbl st2 = sets_tbl st1 \<and>
         k' = length (filter (\<lambda>y. wx_workout_id y = wid) (workout_exercises_tbl st2))"
    by (intro ensure_workout_exercise_steps[OF x, of n]) simp_all
  from x' e' assms(2) have s': "step\<^sup>*\<^sup>* st2 st3"
    by (intro insert_sets_steps[OF s]) simp_all
  note f = insert_sets_frame[OF s]
  have w3: "wid = length (workouts_tbl st3)" using f x' e' assms(2) by simp
  have k3: "k' = length (filter (\<lambda>y. wx_workout_id y = wid) (workout_exercises_tbl st3))"
    using f x' by simp
  have st3: "step\<^sup>*\<^sup>* st st3" using e' x' s' by (meson rtranclp_trans)
  have st': "step\<^sup>*\<^sup>* st3 st'" by (rule process_exercises_steps[OF rec w3 k3])
  have m1: "map_of (exercises st3) n = Some eid" using f x' e' by simp
  have m2: "map_of (workout_exercises st3) (wid, eid) = Some weid" using f x' by simp
  have f1: "workouts st3 = workouts st" using f x' e' by simp
  have f2: "workouts_tbl st3 = workouts_tbl st" using f x' e' by simp
  show thesis by (rule that[OF e x s rec w3 k3 st3 st' m1 m2 f1 f2])
qed

lemma process_exercises_frame:
  "process_exercises env d wid ts groups k st = Inr st' \<Longrightarrow> wid = length (workouts_tbl st) \<Longrightarrow>
   k = length (filter (\<lambda>y. wx_workout_id y = wid) (workout_exercises_tbl st)) \<Longrightarrow>
   workouts st' = workouts st \<and> workouts_tbl st' = workouts_tbl st"
proof (induction groups arbitrary: k st)
  case Nil
  then show ?case by simp
next
  case (Cons g groups)
  obtain n ers where g: "g = (n, ers)" by (cases g)
  from Cons.prems[unfolded g] obtain k' st3 where
    rec: "process_exercises env d wid ts groups k' st3 = Inr st'" and
    3: "wid = length (workouts_tbl st3)"
    "k' = length (filter (\<lambda>y. wx_workout_id y = wid) (workout_exercises_tbl st3))" and
    f: "workouts st3 = workouts st" "workouts_tbl st3 = workouts_tbl st"
    by (rule process_exercises_iter)
  from Cons.IH[OF rec 3] f show ?case by simp
qed

lemma process_exercises_sets:
  "process_exercises env d wid ts groups k st = Inr st' \<Longrightarrow> wid = length (workouts_tbl st) \<Longrightarrow>
   k = length (filter (\<lambda>y. wx_workout_id y = wid) (workout_exercises_tbl st)) \<Longrightarrow>
   \<exists>new. sets_tbl st' = sets_tbl st @ new \<and>
         list_all2 (set_in_group env st' d wid) new (group_plan groups)"
proof (induction groups arbitrary: k st)
  case Nil
  then show ?case by (simp add: group_plan_def)
next
  case (Cons g groups)
  obtain n ers where g: "g = (n, ers)" by (cases g)
  from Cons.prems[unfolded g] obtain eid weid k' st1 st2 st3 where
    e: "ensure_exercise n ts st = (eid, st1)" and
    x: "ensure_workout_exercise env d wid eid ers k st1 = Inr (weid, k', st2)" and
    s: "insert_sets env d wid eid weid ers 0 st2 = Inr st3" and
    rec: "process_exercises env d wid ts groups k' st3 = Inr st'" and
    3: "wid = length (workouts_tbl st3)"
    "k' = length (filter (\<lambda>y. wx_workout_id y = wid) (workout_exercises_tbl st3))" and
    steps: "step\<^sup>*\<^sup>* st3 st'" and
    m: "map_of (exercises st3) n = Some eid"
    "map_of (workout_exercises st3) (wid, eid) = Some weid"
    by (rule process_exercises_iter)
  from Cons.IH[OF rec 3] obtain new2 where new2: "sets_tbl st' = sets_tbl st3 @ new2"
    "list_all2 (set_in_group env st' d wid) new2 (group_plan groups)" by blast
  from insert_sets_added[OF s] obtain new1 where new1: "sets_tbl st3 = sets_tbl st2 @ new1"
    "list_all2 (\<lambda>s r. \<exists>i. set_of_row env d wid eid weid i r s) new1 ers" by blast
  have "sets_tbl st2 = sets_tbl st1"
    using x by (cases rule: ensure_workout_exercise_cases) simp_all
  with ensure_exercise_steps[OF e] have "sets_tbl st2 = sets_tbl st" by simp
  with new1 new2 have a: "sets_tbl st' = sets_tbl st @ (new1 @ new2)" by simp
  from m steps have m': "map_of (exercises st') n = Some eid"
    "map_of (workout_exercises st') (wid, eid) = Some weid"
    by (auto intro: steps_exercises_mono steps_workout_exercises_mono)
  have "list_all2 (set_in_group env st' d wid) new1 (map (Pair n) ers)"
    using new1(2) m' by (auto simp: list_all2_map2 set_in_group_def elim!: list_all2_mono)
  with new2(2) have "list_all2 (set_in_group env st' d wid) (new1 @ new2) (group_plan (g # groups))"
    by (simp add: group_plan_def g list_all2_appendI)
  with a show ?case by blast
qed

lemma process_exercises_names:
  "process_exercises env d wid ts groups k st = Inr st' \<Longrightarrow> wid = length (workouts_tbl st) \<Longrightarrow>
   k = length (filter (\<lambda>y. wx_workout_id y = wid) (workout_exercises_tbl st)) \<Longrightarrow> inv_all st \<Longrightarrow>
   map e_name (exercises_tbl st') = first_seen_from (map e_name (exercises_tbl st)) (map fst groups)"
proof (induction groups arbitrary: k st)
  case Nil
  then show ?case by simp
next
  case (Cons g groups)
  obtain n ers where g: "g = (n, ers)" by (cases g)
  from Cons.prems(1-3)[unfolded g] obtain eid weid k' st1 st2 st3 where
    e: "ensure_exercise n ts st = (eid, st1)" and
    x: "ensure_workout_exercise env d wid eid ers k st1 = Inr (weid, k', st2)" and
    s: "insert_sets env d wid eid weid ers 0 st2 = Inr st3" and
    rec: "process_exercises env d wid ts groups k' st3 = Inr st'" and
    3: "wid = length (workouts_tbl st3)"
    "k' = length (filter (\<lambda>y. wx_workout_id y = wid) (workout_exercises_tbl st3))" and
    steps: "step\<^sup>*\<^sup>* st st3"
    by (rule process_exercises_iter)
  have inv3: "inv_all st3" using steps Cons.prems(4) by (rule steps_inv)
  have "exercises_tbl st2 = exercises_tbl st1"
    using x by (cases rule: ensure_workout_exercise_cases) simp_all
  with insert_sets_frame[OF s] have t3: "exercises_tbl st3 = exercises_tbl st1" by simp
  from Cons.prems(4) have mirror: "exercises st = map (\<lambda>e. (e_name e, e_id e)) (exercises_tbl st)"
    by (simp add: inv_all_def inv_dicts_def)
  have dom: "map_of (exercises st) n = None \<longleftrightarrow> n \<notin> set (map e_name (exercises_tbl st))"
    by (subst mirror) (force simp: map_of_eq_None_iff)
  have "map e_name (exercises_tbl st1) =
          (if n \<in> set (map e_name (exercises_tbl st)) then map e_name (exercises_tbl st)
           else map e_name (exercises_tbl st) @ [n])"
  proof (cases rule: ensure_exercise_cases[of st n ts])
    case (found eid')
    with e dom show ?thesis by auto
  next
    case (created e')
    with e dom show ?thesis by auto
  qed
  with Cons.IH[OF rec 3 inv3] t3 show ?case by (simp add: g)
qed

lemma inv_exercises_inj:
  assumes "inv_all st" "map_of (exercises st) a = Some i" "map_of (exercises st) b = Some i"
  shows "a = b"
proof -
  from assms(1) have mirror: "exercises st = map (\<lambda>e. (e_name e, e_id e)) (exercises_tbl st)"
    and ids: "map e_id (exercises_tbl st) = [1..<Suc (length (exercises_tbl st))]"
    by (simp_all add: inv_all_def inv_dicts_def inv_ids_def)
  from ids have "distinct (map e_id (exercises_tbl st))" by simp
  then have inj: "inj_on e_id (set (exercises_tbl st))" by (simp add: distinct_map)
  from assms(2) mirror obtain e1 where e1: "e1 \<in> set (exercises_tbl st)" "e_name e1 = a" "e_id e1 = i"
    by (metis (no_types, lifting) fst_conv imageE list.set_map map_of_SomeD snd_conv)
  from assms(3) mirror obtain e2 where e2: "e2 \<in> set (exercises_tbl st)" "e_name e2 = b" "e_id e2 = i"
    by (metis (no_types, lifting) fst_conv imageE list.set_map map_of_SomeD snd_conv)
  from inj e1 e2 have "e1 = e2" by (auto dest: inj_onD)
  with e1 e2 show ?thesis by simp
qed

lemma inv_link_found:
  assumes "inv_all st" "map_of (workout_exercises st) (wid, eid) = Some weid"
  obtains x where "x \<in> set (workout_exercises_tbl st)" "wx_workout_id x = wid"
    "wx_exercise_id x = eid" "wx_id x = weid"
proof -
  from assms(1) have "workout_exercises st =
    map (\<lambda>x. ((wx_workout_id x, wx_exercise_id x), wx_id x)) (workout_exercises_tbl st)"
    by (simp add: inv_all_def inv_dicts_def)
  with assms(2) have "((wid, eid), weid) \<in>
    set (map (\<lambda>x. ((wx_workout_id x, wx_exercise_id x), wx_id x)) (workout_exercises_tbl st))"
    by (metis map_of_SomeD)
  then show thesis by (auto intro: that)
qed

lemma process_exercises_links:
  "process_exercises env d wid ts groups k st = Inr st' \<Longrightarrow> wid = length (workouts_tbl st) \<Longrightarrow>
   k = length (filter (\<lambda>y. wx_workout_id y = wid) (workout_exercises_tbl st)) \<Longrightarrow> inv_all st \<Longrightarrow>
   distinct (map fst groups) \<Longrightarrow>
   (\<forall>x \<in> set (workout_exercises_tbl st). wx_workout_id x = wid \<longrightarrow>
      (\<forall>n \<in> set (map fst groups). map_of (exercises st) n \<noteq> Some (wx_exercise_id x))) \<Longrightarrow>
   \<exists>new. workout_exercises_tbl st' = workout_exercises_tbl st @ new \<and>
         list_all2 (link_of_group env st' d wid) new groups"
proof (induction groups arbitrary: k st)
  case Nil
  then show ?case by simp
next
  case (Cons g groups)
  obtain n ers where g: "g = (n, ers)" by (cases g)
  from Cons.prems(1-3)[unfolded g] obtain eid weid k' st1 st2 st3 where
    e: "ensure_exercise n ts st = (eid, st1)" and
    x: "ensure_workout_exercise env d wid eid ers k st1 = Inr (weid, k', st2)" and
    s: "insert_sets env d wid eid weid ers 0 st2 = Inr st3" and
    rec: "process_exercises env d wid ts groups k' st3 = Inr st'" and
    3: "wid = length (workouts_tbl st3)"
    "k' = length (filter (\<lambda>y. wx_workout_id y = wid) (workout_exercises_tbl st3))" and
    steps: "step\<^sup>*\<^sup>* st st3" and steps': "step\<^sup>*\<^sup>* st3 st'" and
    m: "map_of (exercises st3) n = Some eid"
    by (rule process_exercises_iter)
  note e' = ensure_exercise_steps[OF e]
  have inv1: "inv_all st1" using e' Cons.prems(4) by (auto intro: steps_inv)
  have inv3: "inv_all st3" using steps Cons.prems(4) by (rule steps_inv)
  note f = insert_sets_frame[OF s]
  have none: "map_of (workout_exercises st1) (wid, eid) = None"
  proof (rule ccontr)
    assume "map_of (workout_exercises st1) (wid, eid) \<noteq> None"
    then obtain weid' where "map_of (workout_exercises st1) (wid, eid) = Some weid'" by auto
    with inv1 obtain y where y: "y \<in> set (workout_exercises_tbl st1)" "wx_workout_id y = wid"
      "wx_exercise_id y = eid"
      by (auto elim: inv_link_found)
    with e' have y': "y \<in> set (workout_exercises_tbl st)" by simp
    show False
    proof (cases rule: ensure_exercise_cases[of st n ts])
      case (found eid')
      with e have "map_of (exercises st) n = Some eid" by simp
      with Cons.prems(6) y' y show False by (auto simp: g)
    next
      case (created e0)
      with e have eid: "eid = Suc (length (exercises_tbl st))" by simp
      from Cons.prems(4) y' have "wx_exercise_id y \<in> set (map e_id (exercises_tbl st))"
        by (simp add: inv_all_def inv_refs_def)
      moreover from Cons.prems(4) have "map e_id (exercises_tbl st) = [1..<Suc (length (exercises_tbl st))]"
        by (simp add: inv_all_def inv_ids_def)
      ultimately show False using y(3) eid by auto
    qed
  qed
  from x none obtain xh clk r rest where xh: "ers = r # rest" "wx_of_group env d wid eid k r xh"
    "st2 = add_workout_exercise xh clk st1"
    by (cases rule: ensure_workout_exercise_cases) simp_all
  have t3: "workout_exercises_tbl st3 = workout_exercises_tbl st @ [xh]"
    using f xh(3) e' by simp
  have ex3: "exercises st3 = exercises st1" using f xh(3) by simp
  have fresh3: "\<forall>y \<in> set (workout_exercises_tbl st3). wx_workout_id y = wid \<longrightarrow>
      (\<forall>n' \<in> set (map fst groups). map_of (exercises st3) n' \<noteq> Some (wx_exercise_id y))"
  proof (intro ballI impI)
    fix y n'
    assume y: "y \<in> set (workout_exercises_tbl st3)" "wx_workout_id y = wid"
      and n': "n' \<in> set (map fst groups)"
    from n' Cons.prems(5) have ne: "n' \<noteq> n" by (auto simp: g)
    show "map_of (exercises st3) n' \<noteq> Some (wx_exercise_id y)"
    proof
      assume a: "map_of (exercises st3) n' = Some (wx_exercise_id y)"
      from y(1) t3 consider "y \<in> set (workout_exercises_tbl st)" | "y = xh" by auto
      then show False
      proof cases
        case 1
        have "map_of (exercises st1) n' = map_of (exercises st) n'"
        proof (cases rule: ensure_exercise_cases[of st n ts])
          case (found eid')
          with e show ?thesis by simp
        next
          case (created e0)
          with e ne show ?thesis by (auto simp: map_of_dict_set)
        qed
        with a ex3 have "map_of (exercises st) n' = Some (wx_exercise_id y)" by simp
        with Cons.prems(6) 1 y(2) n' show False by (auto simp: g)
      next
        case 2
        with xh(2) have "wx_exercise_id y = eid" by (simp add: wx_of_group_def)
        with a m have "n' = n" by (auto intro: inv_exercises_inj[OF inv3])
        with ne show False by simp
      qed
    qed
  qed
  from Cons.prems(5) have "distinct (map fst groups)" by simp
  from Cons.IH[OF rec 3 inv3 this fresh3] obtain new2 where
    new2: "workout_exercises_tbl st' = workout_exercises_tbl st3 @ new2"
    "list_all2 (link_of_group env st' d wid) new2 groups" by blast
  from m steps' have "map_of (exercises st') n = Some eid" by (rule steps_exercises_mono[rotated])
  with xh have "link_of_group env st' d wid xh g"
    by (auto simp: link_of_group_def g)
  with new2 t3 have "workout_exercises_tbl st' = workout_exercises_tbl st @ (xh # new2) \<and>
      list_all2 (link_of_group env st' d wid) (xh # new2) (g # groups)" by simp
  then show ?case by blast
qed

lemma set_in_group_mono:
  "step\<^sup>*\<^sup>* st st' \<Longrightarrow> set_in_group env st d wid s nr \<Longrightarrow> set_in_group env st' d wid s nr"
  unfolding set_in_group_def
  by (meson steps_exercises_mono steps_workout_exercises_mono)

lemma link_of_group_mono:
  "step\<^sup>*\<^sup>* st st' \<Longrightarrow> link_of_group env st d wid x g \<Longrightarrow> link_of_group env st' d wid x g"
  unfolding link_of_group_def
  by (meson steps_exercises_mono)

lemma set_in_plan_mono:
  "step\<^sup>*\<^sup>* st st' \<Longrightarrow> set_in_plan env st s dnr \<Longrightarrow> set_in_plan env st' s dnr"
  unfolding set_in_plan_def
  by (meson steps_workouts_mono set_in_group_mono)

lemma distinct_group_by_exercise: "distinct (map fst (group_by_exercise rows))"
  by (simp add: group_by_exercise_eq distinct_keys_group_rows)

lemma distinct_group_by_date: "distinct (map fst (group_by_date rows))"
  by (simp add: group_by_date_eq distinct_keys_group_rows)

lemma process_day_spec:
  assumes "process_day env rbd d st = Inr st1" "inv_all st" "map_of (workouts st) d = None"
  obtains w newx news where
    "dict_get rbd d [] \<noteq> []"
    "workout_of_day env d (dict_get rbd d []) w"
    "w_id w = Suc (length (workouts_tbl st))" "w_uid w = uid_count st"
    "workouts_tbl st1 = workouts_tbl st @ [w]" "workouts st1 = workouts st @ [(d, w_id w)]"
    "workout_exercises_tbl st1 = workout_exercises_tbl st @ newx"
    "list_all2 (link_of_group env st1 d (w_id w)) newx (group_by_exercise (dict_get rbd d []))"
    "sets_tbl st1 = sets_tbl st @ news"
    "list_all2 (set_in_group env st1 d (w_id w)) news
       (group_plan (group_by_exercise (dict_get rbd d [])))"
    "map e_name (exercises_tbl st1) =
       first_seen_from (map e_name (exercises_tbl st))
         (map fst (group_by_exercise (dict_get rbd d [])))"
    "step\<^sup>*\<^sup>* st st1"
proof -
  let ?groups = "group_by_exercise (dict_get rbd d [])"
  from assms(1) obtain w clk where ne: "dict_get rbd d [] \<noteq> []" and
    wd: "workout_of_day env d (dict_get rbd d []) w" and
    w: "w_id w = Suc (length (workouts_tbl st))" "w_uid w = uid_count st" and
    rec: "process_exercises env d (w_id w) (w_started_at w) ?groups 0
       (add_workout d w clk st) = Inr st1"
    by (rule process_day_E)
  let ?st0 = "add_workout d w clk st"
  from w assms(3) have 1: "step st ?st0" by (intro step_workout)
  from 1 assms(2) have inv0: "inv_all ?st0" by (rule step_inv)
  from assms(2) have "\<forall>x \<in> set (workout_exercises_tbl st). wx_workout_id x \<le> length (workouts_tbl st)"
    by (simp add: inv_all_def inv_refs_def)
  then have nolink: "\<forall>x \<in> set (workout_exercises_tbl st). wx_workout_id x \<noteq> w_id w"
    using w(1) by auto
  then have k0: "0 = length (filter (\<lambda>y. wx_workout_id y = w_id w) (workout_exercises_tbl ?st0))"
    by (simp add: filter_empty_conv)
  have w0: "w_id w = length (workouts_tbl ?st0)" using w(1) by simp
  have fresh: "\<forall>x \<in> set (workout_exercises_tbl ?st0). wx_workout_id x = w_id w \<longrightarrow>
      (\<forall>n \<in> set (map fst ?groups). map_of (exercises ?st0) n \<noteq> Some (wx_exercise_id x))"
    using nolink by simp
  from process_exercises_links[OF rec w0 k0 inv0 distinct_group_by_exercise fresh]
  obtain newx where newx: "workout_exercises_tbl st1 = workout_exercises_tbl st @ newx"
    "list_all2 (link_of_group env st1 d (w_id w)) newx ?groups"
    by auto
  from process_exercises_sets[OF rec w0 k0]
  obtain news where news: "sets_tbl st1 = sets_tbl st @ news"
    "list_all2 (set_in_group env st1 d (w_id w)) news (group_plan ?groups)"
    by auto
  from process_exercises_names[OF rec w0 k0 inv0]
  have names: "map e_name (exercises_tbl st1) =
       first_seen_from (map e_name (exercises_tbl st)) (map fst ?groups)" by simp
  from process_exercises_frame[OF rec w0 k0] assms(3)
  have fr: "workouts_tbl st1 = workouts_tbl st @ [w]" "workouts st1 = workouts st @ [(d, w_id w)]"
    by (simp_all add: dict_set_fresh)
  from process_exercises_steps[OF rec w0 k0] 1 have steps: "step\<^sup>*\<^sup>* st st1" by simp
  show thesis
    by (rule that[OF ne wd w fr newx news names steps])
qed

lemma process_days_iter:
  assumes "process_days env rbd (d # dates) st = Inr st'" "inv_all st" "distinct (d # dates)"
    "\<forall>d' \<in> set (d # dates). map_of (workouts st) d' = None"
  obtains st1 where "process_day env rbd d st = Inr st1"
    "process_days env rbd dates st1 = Inr st'" "inv_all st1" "distinct dates"
    "\<forall>d' \<in> set dates. map_of (workouts st1) d' = None" "step\<^sup>*\<^sup>* st st1"
    "length (workouts_tbl st1) = Suc (length (workouts_tbl st))"
proof -
  from assms(1) obtain st1 where day: "process_day env rbd d st = Inr st1"
    and rec: "process_days env rbd dates st1 = Inr st'"
    by (auto split: sum.splits)
  from assms(4) have none: "map_of (workouts st) d = None" by simp
  from day assms(2) none obtain w where f: "workouts st1 = workouts st @ [(d, w_id w)]"
    "workouts_tbl st1 = workouts_tbl st @ [w]" and steps: "step\<^sup>*\<^sup>* st st1"
    by (rule process_day_spec)
  have inv1: "inv_all st1" using steps assms(2) by (rule steps_inv)
  have "\<forall>d' \<in> set dates. map_of (workouts st1) d' = None"
    using assms(3,4) f by (auto simp: map_of_eq_None_iff)
  moreover have "length (workouts_tbl st1) = Suc (length (workouts_tbl st))" using f by simp
  ultimately show thesis using day rec inv1 assms(3) steps by (intro that[of st1]) simp_all
qed

lemma process_days_steps:
  "process_days env rbd dates st = Inr st' \<Longrightarrow> inv_all st \<Longrightarrow> distinct dates \<Longrightarrow>
   \<forall>d \<in> set dates. map_of (workouts st) d = None \<Longrightarrow> step\<^sup>*\<^sup>* st st'"
proof (induction dates arbitrary: st)
  case Nil
  then show ?case by simp
next
  case (Cons d dates)
  from Cons.prems obtain st1 where rec: "process_days env rbd dates st1 = Inr st'"
    and 1: "inv_all st1" "distinct dates" "\<forall>d' \<in> set dates. map_of (workouts st1) d' = None"
    and steps: "step\<^sup>*\<^sup>* st st1"
    by (rule process_days_iter)
  from Cons.IH[OF rec 1] steps show ?case by simp
qed

lemma process_days_workouts:
  "process_days env rbd dates st = Inr st' \<Longrightarrow> inv_all st \<Longrightarrow> distinct dates \<Longrightarrow>
   \<forall>d \<in> set dates. map_of (workouts st) d = None \<Longrightarrow>
   \<exists>new. workouts_tbl st' = workouts_tbl st @ new \<and>
         list_all2 (\<lambda>w d. workout_of_day env d (dict_get rbd d []) w \<and>
                      map_of (workouts st') d = Some (w_id w)) new dates \<and>
         map fst (workouts st') = map fst (workouts st) @ dates"
proof (induction dates arbitrary: st)
  case Nil
  then show ?case by simp
next
  case (Cons d dates)
  from Cons.prems obtain st1 where day: "process_day env rbd d st = Inr st1"
    and rec: "process_days env rbd dates st1 = Inr st'"
    and 1: "inv_all st1" "distinct dates" "\<forall>d' \<in> set dates. map_of (workouts st1) d' = None"
    by (rule process_days_iter)
  from Cons.prems(4) have none: "map_of (workouts st) d = None" by simp
  from day Cons.prems(2) none obtain w where w: "workout_of_day env d (dict_get rbd d []) w"
    "workouts_tbl st1 = workouts_tbl st @ [w]" "workouts st1 = workouts st @ [(d, w_id w)]"
    by (rule process_day_spec)
  from Cons.IH[OF rec 1] obtain new where new: "workouts_tbl st' = workouts_tbl st1 @ new"
    "list_all2 (\<lambda>w d. workout_of_day env d (dict_get rbd d []) w \<and>
                      map_of (workouts st') d = Some (w_id w)) new dates"
    "map fst (workouts st') = map fst (workouts st1) @ dates" by blast
  from w(3) none have "map_of (workouts st1) d = Some (w_id w)"
    by (simp add: map_of_append map_add_def)
  with process_days_steps[OF rec 1] have "map_of (workouts st') d = Some (w_id w)"
    by (rule steps_workouts_mono)
  with w new have "workouts_tbl st' = workouts_tbl st @ (w # new) \<and>
         list_all2 (\<lambda>w d. workout_of_day env d (dict_get rbd d []) w \<and>
                      map_of (workouts st') d = Some (w_id w)) (w # new) (d # dates) \<and>
         map fst (workouts st') = map fst (workouts st) @ (d # dates)" by simp
  then show ?case by blast
qed

lemma process_days_sets:
  "process_days env rbd dates st = Inr st' \<Longrightarrow> inv_all st \<Longrightarrow> distinct dates \<Longrightarrow>
   \<forall>d \<in> set dates. map_of (workouts st) d = None \<Longrightarrow>
   \<exists>new. sets_tbl st' = sets_tbl st @ new \<and>
         list_all2 (set_in_plan env st') new (day_plan rbd dates)"
proof (induction dates arbitrary: st)
  case Nil
  then show ?case by (simp add: day_plan_def)
next
  case (Cons d dates)
  from Cons.prems obtain st1 where day: "process_day env rbd d st = Inr st1"
    and rec: "process_days env rbd dates st1 = Inr st'"
    and 1: "inv_all st1" "distinct dates" "\<forall>d' \<in> set dates. map_of (workouts st1) d' = None"
    by (rule process_days_iter)
  from Cons.prems(4) have none: "map_of (workouts st) d = None" by simp
  from day Cons.prems(2) none obtain w :: workout_row and news where
    w: "workouts st1 = workouts st @ [(d, w_id w)]" and
    news: "sets_tbl st1 = sets_tbl st @ news"
    "list_all2 (set_in_group env st1 d (w_id w)) news
       (group_plan (group_by_exercise (dict_get rbd d [])))"
    by (rule process_day_spec)
  from Cons.IH[OF rec 1] obtain new where new: "sets_tbl st' = sets_tbl st1 @ new"
    "list_all2 (set_in_plan env st') new (day_plan rbd dates)" by blast
  from w none have "map_of (workouts st1) d = Some (w_id w)"
    by (simp add: map_of_append map_add_def)
  with news(2) have "list_all2 (set_in_plan env st1) news
      (map (Pair d) (group_plan (group_by_exercise (dict_get rbd d []))))"
    by (auto simp: list_all2_map2 set_in_plan_def elim!: list_all2_mono)
  then have "list_all2 (set_in_plan env st') news
      (map (Pair d) (group_plan (group_by_exercise (dict_get rbd d []))))"
    using process_days_steps[OF rec 1] by (auto elim!: list_all2_mono intro: set_in_plan_mono)
  with new news(1) have "sets_tbl st' = sets_tbl st @ (news @ new) \<and>
      list_all2 (set_in_plan env st') (news @ new) (day_plan rbd (d # dates))"
    by (simp add: day_plan_def list_all2_appendI)
  then show ?case by blast
qed

lemma process_days_names:
  "process_days env rbd dates st = Inr st' \<Longrightarrow> inv_all st \<Longrightarrow> distinct dates \<Longrightarrow>
   \<forall>d \<in> set dates. map_of (workouts st) d = None \<Longrightarrow>
   map e_name (exercises_tbl st') =
     first_seen_from (map e_name (exercises_tbl st))
       (concat (map (\<lambda>d. map fst (group_by_exercise (dict_get rbd d []))) dates))"
proof (induction dates arbitrary: st)
  case Nil
  then show ?case by simp
next
  case (Cons d dates)
  from Cons.prems obtain st1 where day: "process_day env rbd d st = Inr st1"
    and rec: "process_days env rbd dates st1 = Inr st'"
    and 1: "inv_all st1" "distinct dates" "\<forall>d' \<in> set dates. map_of (workouts st1) d' = None"
    by (rule process_days_iter)
  from Cons.prems(4) have none: "map_of (workouts st) d = None" by simp
  from day Cons.prems(2) none have
    "map e_name (exercises_tbl st1) =
       first_seen_from (map e_name (exercises_tbl st))
         (map fst (group_by_exercise (dict_get rbd d [])))"
    by (rule process_day_spec)
  with Cons.IH[OF rec 1] show ?case by (simp add: first_seen_from_append)
qed

lemma list_all2_left:
  "list_all2 P xs ys \<Longrightarrow> (\<And>x y. P x y \<Longrightarrow> Q x) \<Longrightarrow> \<forall>x \<in> set xs. Q x"
  by (induction rule: list_all2_induct) auto

lemma link_of_group_wid: "link_of_group env st d wid x g \<Longrightarrow> wx_workout_id x = wid"
  by (auto simp: link_of_group_def wx_of_group_def)

lemma process_days_links:
  "process_days env rbd dates st = Inr st' \<Longrightarrow> inv_all st \<Longrightarrow> distinct dates \<Longrightarrow>
   \<forall>d \<in> set dates. map_of (workouts st) d = None \<Longrightarrow>
   (\<exists>new. workout_exercises_tbl st' = workout_exercises_tbl st @ new \<and>
          (\<forall>x \<in> set new. length (workouts_tbl st) < wx_workout_id x)) \<and>
   (\<forall>d \<in> set dates. \<exists>wid. map_of (workouts st') d = Some wid \<and>
      list_all2 (link_of_group env st' d wid)
        (filter (\<lambda>x. wx_workout_id x = wid) (workout_exercises_tbl st'))
        (group_by_exercise (dict_get rbd d [])))"
proof (induction dates arbitrary: st)
  case Nil
  then show ?case by simp
next
  case (Cons d dates)
  from Cons.prems obtain st1 where day: "process_day env rbd d st = Inr st1"
    and rec: "process_days env rbd dates st1 = Inr st'"
    and 1: "inv_all st1" "distinct dates" "\<forall>d' \<in> set dates. map_of (workouts st1) d' = None"
    and len1: "length (workouts_tbl st1) = Suc (length (workouts_tbl st))"
    by (rule process_days_iter)
  from Cons.prems(4) have none: "map_of (workouts st) d = None" by simp
  from day Cons.prems(2) none obtain w :: workout_row and newx where
    w: "w_id w = Suc (length (workouts_tbl st))" "workouts st1 = workouts st @ [(d, w_id w)]" and
    newx: "workout_exercises_tbl st1 = workout_exercises_tbl st @ newx"
    "list_all2 (link_of_group env st1 d (w_id w)) newx (group_by_exercise (dict_get rbd d []))"
    by (rule process_day_spec)
  note steps = process_days_steps[OF rec 1]
  from Cons.IH[OF rec 1] obtain new where new:
    "workout_exercises_tbl st' = workout_exercises_tbl st1 @ new"
    "\<forall>x \<in> set new. length (workouts_tbl st1) < wx_workout_id x" and
    rest: "\<forall>d \<in> set dates. \<exists>wid. map_of (workouts st') d = Some wid \<and>
      list_all2 (link_of_group env st' d wid)
        (filter (\<lambda>x. wx_workout_id x = wid) (workout_exercises_tbl st'))
        (group_by_exercise (dict_get rbd d []))"
    by blast
  from newx(2) have wids: "\<forall>x \<in> set newx. wx_workout_id x = w_id w"
    by (rule list_all2_left) (rule link_of_group_wid)
  have a: "workout_exercises_tbl st' = workout_exercises_tbl st @ (newx @ new)"
    using newx(1) new(1) by simp
  have b: "\<forall>x \<in> set (newx @ new). length (workouts_tbl st) < wx_workout_id x"
    using wids w(1) new(2) len1 by auto
  from Cons.prems(2) have "\<forall>x \<in> set (workout_exercises_tbl st). wx_workout_id x \<le> length (workouts_tbl st)"
    by (simp add: inv_all_def inv_refs_def)
  then have f1: "filter (\<lambda>x. wx_workout_id x = w_id w) (workout_exercises_tbl st) = []"
    using w(1) by (auto simp: filter_empty_conv)
  have f2: "filter (\<lambda>x. wx_workout_id x = w_id w) newx = newx"
    using wids by (simp add: filter_id_conv)
  have f3: "filter (\<lambda>x. wx_workout_id x = w_id w) new = []"
    using new(2) len1 w(1) by (auto simp: filter_empty_conv)
  from w(2) none have "map_of (workouts st1) d = Some (w_id w)"
    by (simp add: map_of_append map_add_def)
  with steps have m: "map_of (workouts st') d = Some (w_id w)" by (rule steps_workouts_mono)
  from newx(2) steps have "list_all2 (link_of_group env st' d (w_id w)) newx
      (group_by_exercise (dict_get rbd d []))"
    by (auto elim!: list_all2_mono intro: link_of_group_mono)
  with a f1 f2 f3 have "list_all2 (link_of_group env st' d (w_id w))
        (filter (\<lambda>x. wx_workout_id x = w_id w) (workout_exercises_tbl st'))
        (group_by_exercise (dict_get rbd d []))" by simp
  with m rest have c: "\<forall>d \<in> set (d # dates). \<exists>wid. map_of (workouts st') d = Some wid \<and>
      list_all2 (link_of_group env st' d wid)
        (filter (\<lambda>x. wx_workout_id x = wid) (workout_exercises_tbl st'))
        (group_by_exercise (dict_get rbd d []))" by auto
  from a b c show ?case by blast
qed

lemma length_group_plan: "length (group_plan G) = sum_list (map (\<lambda>g. length (snd g)) G)"
  by (induction G) (auto simp: group_plan_def)

lemma set_group_plan: "set (group_plan G) = {(n, r). \<exists>g. (n, g) \<in> set G \<and> r \<in> set g}"
  by (auto simp: group_plan_def)

lemma keys_group_rows_set:
  "fst ` set (group_rows key rows []) = {k. k \<noteq> [] \<and> k \<in> key ` set rows}"
proof -
  have "set (map fst (group_rows key rows [])) = {k. k \<noteq> [] \<and> k \<in> key ` set rows}"
    by (auto simp: keys_group_rows set_first_seen_from)
  then show ?thesis by simp
qed

lemma set_group_plan_rows:
  "set (group_plan (group_rows key rows [])) = {(n, r). r \<in> set rows \<and> key r = n \<and> n \<noteq> []}"
proof (intro set_eqI iffI; clarify)
  fix n r
  assume "(n, r) \<in> set (group_plan (group_rows key rows []))"
  then obtain g where g: "(n, g) \<in> set (group_rows key rows [])" "r \<in> set g"
    by (auto simp: set_group_plan)
  from group_member[OF g(1)] g(2) show "r \<in> set rows \<and> key r = n \<and> n \<noteq> []" by auto
next
  fix r
  assume r: "r \<in> set rows" "key r \<noteq> []"
  then have "key r \<in> fst ` set (group_rows key rows [])"
    by (simp add: keys_group_rows_set)
  then obtain g where g: "(key r, g) \<in> set (group_rows key rows [])" by auto
  from group_member[OF g] r have "r \<in> set g" by simp
  with g show "(key r, r) \<in> set (group_plan (group_rows key rows []))"
    by (auto simp: set_group_plan)
qed

lemma length_group_plan_rows:
  "length (group_plan (group_rows key rows [])) = length (filter (\<lambda>r. key r \<noteq> []) rows)"
  by (simp add: length_group_plan sizes_group_rows)

lemma dict_get_Nil: "dict_get [] k v = v"
  by (simp add: dict_get_def)

lemma day_rows_eq:
  "d \<noteq> [] \<Longrightarrow> dict_get (group_by_date rows) d [] = filter (\<lambda>r. date_of r = d) rows"
  by (simp add: group_by_date_eq dict_get_group_rows dict_get_Nil date_of_def)

lemma set_sorted_dates:
  "set (sorted_dates (group_by_date rows)) = {d. d \<noteq> [] \<and> d \<in> date_of ` set rows}"
proof -
  have "set (sorted_dates (group_by_date rows)) = fst ` set (group_by_date rows)"
    by (simp add: sorted_dates_def)
  also have "\<dots> = {d. d \<noteq> [] \<and> d \<in> (\<lambda>r. dict_get r ''Date'' []) ` set rows}"
    unfolding group_by_date_eq by (rule keys_group_rows_set)
  finally show ?thesis by (simp add: date_of_def[abs_def])
qed

lemma distinct_sorted_dates: "distinct (sorted_dates (group_by_date rows))"
  by (simp add: sorted_dates_def distinct_group_by_date)

lemma sorted_sorted_dates: "sorted (rev (sorted_dates (group_by_date rows)))"
  by (simp add: sorted_dates_def)

lemma set_plan:
  "set (plan rows) =
     {(d, n, r). r \<in> set rows \<and> date_of r = d \<and> d \<noteq> [] \<and> exercise_of r = n \<and> n \<noteq> []}"
proof -
  have "set (plan rows) =
     (\<Union>d \<in> set (sorted_dates (group_by_date rows)).
        Pair d ` set (group_plan (group_by_exercise (dict_get (group_by_date rows) d []))))"
    by (simp add: plan_def day_plan_def)
  also have "\<dots> = (\<Union>d \<in> {d. d \<noteq> [] \<and> d \<in> date_of ` set rows}.
        Pair d ` {(n, r). r \<in> set (filter (\<lambda>r. date_of r = d) rows) \<and> exercise_of r = n \<and> n \<noteq> []})"
    by (simp add: set_sorted_dates day_rows_eq group_by_exercise_eq set_group_plan_rows
        exercise_of_def[abs_def])
  also have "\<dots> = {(d, n, r). r \<in> set rows \<and> date_of r = d \<and> d \<noteq> [] \<and> exercise_of r = n \<and> n \<noteq> []}"
    by auto
  finally show ?thesis .
qed

lemma sum_indicator_distinct:
  "distinct ds \<Longrightarrow> sum_list (map (\<lambda>d. if a = d \<and> Q then (1::nat) else 0) ds) =
     (if a \<in> set ds \<and> Q then 1 else 0)"
  by (induction ds) auto

lemma sum_length_filter_distinct:
  "distinct ds \<Longrightarrow>
   sum_list (map (\<lambda>d. length (filter (\<lambda>r. f r = d \<and> Q r) rows)) ds) =
     length (filter (\<lambda>r. f r \<in> set ds \<and> Q r) rows)"
proof (induction rows)
  case Nil
  then show ?case by simp
next
  case (Cons r rows)
  have "sum_list (map (\<lambda>d. length (filter (\<lambda>r. f r = d \<and> Q r) (r # rows))) ds) =
        sum_list (map (\<lambda>d. (if f r = d \<and> Q r then 1 else 0) + length (filter (\<lambda>r. f r = d \<and> Q r) rows)) ds)"
    by (intro arg_cong[where f = sum_list] map_cong) auto
  also have "\<dots> = sum_list (map (\<lambda>d. if f r = d \<and> Q r then 1 else 0) ds) +
        sum_list (map (\<lambda>d. length (filter (\<lambda>r. f r = d \<and> Q r) rows)) ds)"
    by (simp add: sum_list_addf)
  also have "\<dots> = (if f r \<in> set ds \<and> Q r then 1 else 0) +
        length (filter (\<lambda>r. f r \<in> set ds \<and> Q r) rows)"
    using Cons by (simp add: sum_indicator_distinct)
  finally show ?case by simp
qed

lemma length_plan:
  "length (plan rows) = length (filter (\<lambda>r. date_of r \<noteq> [] \<and> exercise_of r \<noteq> []) rows)"
proof -
  let ?ds = "sorted_dates (group_by_date rows)"
  have "length (plan rows) =
      sum_list (map (\<lambda>d. length (group_plan (group_by_exercise (dict_get (group_by_date rows) d [])))) ?ds)"
    by (simp add: plan_def day_plan_def length_concat comp_def)
  also have "\<dots> = sum_list (map (\<lambda>d. length (filter (\<lambda>r. date_of r = d \<and> exercise_of r \<noteq> []) rows)) ?ds)"
  proof (intro arg_cong[where f = sum_list] map_cong refl)
    fix d assume "d \<in> set ?ds"
    then have "d \<noteq> []" by (simp add: set_sorted_dates)
    then show "length (group_plan (group_by_exercise (dict_get (group_by_date rows) d []))) =
        length (filter (\<lambda>r. date_of r = d \<and> exercise_of r \<noteq> []) rows)"
      by (simp add: day_rows_eq group_by_exercise_eq length_group_plan_rows exercise_of_def
          conj_commute)
  qed
  also have "\<dots> = length (filter (\<lambda>r. date_of r \<in> set ?ds \<and> exercise_of r \<noteq> []) rows)"
    by (rule sum_length_filter_distinct) (rule distinct_sorted_dates)
  also have "\<dots> = length (filter (\<lambda>r. date_of r \<noteq> [] \<and> exercise_of r \<noteq> []) rows)"
    by (intro arg_cong[where f = length] filter_cong refl) (auto simp: set_sorted_dates)
  finally show ?thesis .
qed

lemma build_init:
  "inv_all init_state" "distinct (sorted_dates (group_by_date rows))"
  "\<forall>d \<in> set (sorted_dates (group_by_date rows)). map_of (workouts init_state) d = None"
  by (simp_all add: inv_init distinct_sorted_dates) (simp add: init_state_def)

lemma build_steps:
  assumes "build_hierarchy env rows = Inr st"
  shows "step\<^sup>*\<^sup>* init_state st"
  using assms unfolding build_hierarchy_def by (rule process_days_steps) (rule build_init)+

lemma build_inv:
  assumes "build_hierarchy env rows = Inr st"
  shows "inv_all st"
  using build_steps[OF assms] inv_init by (rule steps_inv)

lemma build_sets:
  assumes "build_hierarchy env rows = Inr st"
  shows "list_all2 (set_in_plan env st) (sets_tbl st) (plan rows)"
proof -
  from assms have "\<exists>new. sets_tbl st = sets_tbl init_state @ new \<and>
         list_all2 (set_in_plan env st) new
           (day_plan (group_by_date rows) (sorted_dates (group_by_date rows)))"
    unfolding build_hierarchy_def by (rule process_days_sets) (rule build_init)+
  then show ?thesis by (auto simp: init_state_def plan_def)
qed

lemma build_workouts:
  assumes "build_hierarchy env rows = Inr st"
  shows "list_all2 (\<lambda>w d. workout_of_day env d (filter (\<lambda>r. date_of r = d) rows) w \<and>
                      map_of (workouts st) d = Some (w_id w))
           (workouts_tbl st) (sorted_dates (group_by_date rows))"
    and "map fst (workouts st) = sorted_dates (group_by_date rows)"
proof -
  let ?ds = "sorted_dates (group_by_date rows)"
  from assms have "\<exists>new. workouts_tbl st = workouts_tbl init_state @ new \<and>
         list_all2 (\<lambda>w d. workout_of_day env d (dict_get (group_by_date rows) d []) w \<and>
                      map_of (workouts st) d = Some (w_id w)) new ?ds \<and>
         map fst (workouts st) = map fst (workouts init_state) @ ?ds"
    unfolding build_hierarchy_def by (rule process_days_workouts) (rule build_init)+
  then have a: "list_all2 (\<lambda>w d. workout_of_day env d (dict_get (group_by_date rows) d []) w \<and>
                      map_of (workouts st) d = Some (w_id w)) (workouts_tbl st) ?ds"
    and b: "map fst (workouts st) = ?ds"
    by (auto simp: init_state_def)
  show "map fst (workouts st) = ?ds" by (rule b)
  have "\<forall>d \<in> set ?ds. d \<noteq> []" by (simp add: set_sorted_dates)
  with a show "list_all2 (\<lambda>w d. workout_of_day env d (filter (\<lambda>r. date_of r = d) rows) w \<and>
                      map_of (workouts st) d = Some (w_id w)) (workouts_tbl st) ?ds"
    by (auto simp: list_all2_conv_all_nth day_rows_eq)
qed

lemma build_names:
  assumes "build_hierarchy env rows = Inr st"
  shows "map e_name (exercises_tbl st) = first_seen (map (\<lambda>p. fst (snd p)) (plan rows))"
proof -
  let ?ds = "sorted_dates (group_by_date rows)"
  let ?G = "\<lambda>d. group_by_exercise (dict_get (group_by_date rows) d [])"
  from assms have a: "map e_name (exercises_tbl st) =
     first_seen_from (map e_name (exercises_tbl init_state)) (concat (map (\<lambda>d. map fst (?G d)) ?ds))"
    unfolding build_hierarchy_def by (rule process_days_names) (rule build_init)+
  have seen_rep: "first_seen_from seen (concat (map (\<lambda>g. replicate (length (snd g)) (fst g)) G)) =
      first_seen_from seen (map fst G)" if "list_all (\<lambda>g. snd g \<noteq> []) G" for G :: "(string \<times> row list) list" and seen
    using that
  proof (induction G arbitrary: seen)
    case Nil
    then show ?case by simp
  next
    case (Cons g G)
    have rep: "first_seen_from s (replicate (Suc m) x) = (if x \<in> set s then s else s @ [x])" for s m and x :: string
      by (induction m arbitrary: s) auto
    from Cons.prems obtain m where m: "length (snd g) = Suc m" by (cases "snd g") auto
    from Cons show ?case by (simp add: first_seen_from_append m rep del: replicate.simps)
  qed
  have names: "map (\<lambda>p. fst (snd p)) (map (Pair d) (group_plan G)) =
      concat (map (\<lambda>g. replicate (length (snd g)) (fst g)) G)" for d and G :: "(string \<times> row list) list"
    by (induction G) (auto simp: group_plan_def comp_def map_replicate_const)
  have ne: "list_all (\<lambda>g. snd g \<noteq> []) (?G d)" for d
    unfolding group_by_exercise_eq by (rule nonempty_group_rows) simp
  have "first_seen_from seen (map (\<lambda>p. fst (snd p)) (day_plan (group_by_date rows) ds)) =
      first_seen_from seen (concat (map (\<lambda>d. map fst (?G d)) ds))" for ds seen
  proof (induction ds arbitrary: seen)
    case Nil
    then show ?case by (simp add: day_plan_def)
  next
    case (Cons d ds)
    have "day_plan (group_by_date rows) (d # ds) =
        map (Pair d) (group_plan (?G d)) @ day_plan (group_by_date rows) ds"
      by (simp add: day_plan_def)
    then show ?case
      using Cons[of "first_seen_from seen (map fst (?G d))"]
      by (simp add: first_seen_from_append names seen_rep[OF ne] del: map_map)
  qed
  with a show ?thesis by (simp add: first_seen_def plan_def init_state_def)
qed

lemma build_links:
  assumes "build_hierarchy env rows = Inr st" "d \<noteq> []" "d \<in> date_of ` set rows"
  shows "\<exists>wid. map_of (workouts st) d = Some wid \<and>
      list_all2 (link_of_group env st d wid)
        (filter (\<lambda>x. wx_workout_id x = wid) (workout_exercises_tbl st))
        (group_by_exercise (filter (\<lambda>r. date_of r = d) rows))"
proof -
  from assms(2,3) have d: "d \<in> set (sorted_dates (group_by_date rows))"
    by (simp add: set_sorted_dates)
  from assms(1) have "(\<exists>new. workout_exercises_tbl st = workout_exercises_tbl init_state @ new \<and>
          (\<forall>x \<in> set new. length (workouts_tbl init_state) < wx_workout_id x)) \<and>
   (\<forall>d \<in> set (sorted_dates (group_by_date rows)). \<exists>wid. map_of (workouts st) d = Some wid \<and>
      list_all2 (link_of_group env st d wid)
        (filter (\<lambda>x. wx_workout_id x = wid) (workout_exercises_tbl st))
        (group_by_exercise (dict_get (group_by_date rows) d [])))"
    unfolding build_hierarchy_def by (rule process_days_links) (rule build_init)+
  with d assms(2) show ?thesis by (auto simp: day_rows_eq)
qed

lemma parse_field_Inr: "parse_field p s = Inr v \<longleftrightarrow> (if s = [] then v = None else v \<noteq> None \<and> p s = v)"
  by (auto simp: parse_field_def split: option.splits)

lemma sqlite_integer_Inr:
  "sqlite_integer v = Inr u \<longleftrightarrow>
     u = v \<and> (case v of None \<Rightarrow> True | Some n \<Rightarrow> - (2 ^ 63) \<le> n \<and> n < 2 ^ 63)"
  by (auto simp: sqlite_integer_def split: option.splits)

lemma numeric_ok_iff:
  "numeric_ok env r \<longleftrightarrow>
     (\<exists>w. parse_field (py_float env) (py_strip (dict_get r ''Weight'' [])) = Inr w) \<and>
     (\<exists>p u. parse_field (py_int env) (py_strip (dict_get r ''# of Reps'' [])) = Inr p \<and>
            sqlite_integer p = Inr u)"
  by (auto simp: numeric_ok_def parse_field_def sqlite_integer_def split: option.splits)





lemma nonempty_group_by_exercise: "list_all (\<lambda>g. snd g \<noteq> []) (group_by_exercise rows)"
  unfolding group_by_exercise_eq by (rule nonempty_group_rows) simp





lemma convert_rows_Inr:
  "fst (convert_rows env rows db_file) = Inr st \<longleftrightarrow> rows \<noteq> [] \<and> build_hierarchy env rows = Inr st"
  by (auto simp: convert_rows_def split: sum.splits)

lemma convert_rows_file:
  "fst (convert_rows env rows db_file) = Inr st \<Longrightarrow>
   snd (convert_rows env rows db_file) = Some (committed st)"
  by (auto simp: convert_rows_def split: sum.splits if_splits)

(* evaluation *)
lemma example_ok: "\<not> isl (fst (convert_rows example_runtime example_rows None))"
  by code_simp

lemma example_converts: "fst (convert_rows example_runtime example_rows None) = Inr example_state"
  using example_ok unfolding example_state_def by (cases "fst (convert_rows example_runtime example_rows None)") simp_all

lemma example_built: "build_hierarchy example_runtime example_rows = Inr example_state"
  using example_converts by (simp add: convert_rows_Inr)

text \<open>
  C1 (as amended). When the conversion completes, the number of rows in the sets table, and
  the counter the script prints, equal the number of extracted records whose Date field is
  not empty and whose Exercise field is not empty after trimming. Records without a date or
  without an exercise name are extracted but never reach the loop that inserts sets.
\<close>

theorem C1_set_count:
  assumes "fst (convert_csv_to_db env fieldnames data db_file) = Inr st"
  shows "length (sets_tbl st) =
           length (filter (\<lambda>r. date_of r \<noteq> [] \<and> exercise_of r \<noteq> []) (read_csv fieldnames data))
         \<and> set_count st = length (sets_tbl st)"
proof -
  from assms have b: "build_hierarchy env (read_csv fieldnames data) = Inr st"
    by (simp add: convert_csv_to_db_def convert_rows_Inr)
  from build_sets[OF b] have "length (sets_tbl st) = length (plan (read_csv fieldnames data))"
    by (rule list_all2_lengthD)
  moreover from build_inv[OF b] have "set_count st = length (sets_tbl st)"
    by (simp add: inv_all_def inv_ids_def)
  ultimately show ?thesis by (simp add: length_plan)
qed

theorem C1_set_count_witness:
  "fst (convert_csv_to_db example_runtime example_header example_data None) = Inr example_state
   \<and> length (sets_tbl example_state) =
       length (filter (\<lambda>r. date_of r \<noteq> [] \<and> exercise_of r \<noteq> [])
                 (read_csv example_header example_data))
   \<and> set_count example_state = length (sets_tbl example_state)"
proof -
  have h: "fst (convert_csv_to_db example_runtime example_header example_data None) = Inr example_state"
    using example_converts by (simp add: convert_csv_to_db_def example_rows_def)
  show ?thesis using h C1_set_count [OF h] by simp
qed

(* evaluation *)
theorem C1_counterexample:
  "length (read_csv example_header [['''', ''07:20'', ''Deadlift'', ''5'', ''100'', '''']]) = 1
   \<and> fst (convert_csv_to_db example_runtime example_header
              [['''', ''07:20'', ''Deadlift'', ''5'', ''100'', '''']] None) = Inr init_state
   \<and> length (sets_tbl init_state) = 0"
  by code_simp

lemma sorted_rev_index:
  assumes "sorted (rev ds)" "distinct ds" "i < length ds" "j < length ds" "ds ! j < ds ! i"
  shows "i < (j::nat)"
proof (rule ccontr)
  assume "\<not> i < j"
  then have ji: "j \<le> i" by simp
  from assms(1) have "sorted_wrt (\<ge>) ds"
    by (simp add: sorted_wrt_rev)
  with ji assms(3) have "ds ! i \<le> ds ! j"
    by (auto simp: sorted_wrt_iff_nth_less le_eq_less_or_eq)
  with assms(5) show False by simp
qed

lemma map_of_nth_distinct:
  "distinct (map fst xs) \<Longrightarrow> i < length xs \<Longrightarrow> map_of xs (fst (xs ! i)) = Some (snd (xs ! i))"
  by (metis map_of_is_SomeI nth_mem prod.collapse)

lemma build_workout_ids:
  assumes "build_hierarchy env rows = Inr st" "i < length (sorted_dates (group_by_date rows))"
  shows "map_of (workouts st) (sorted_dates (group_by_date rows) ! i) = Some (Suc i)"
proof -
  let ?ds = "sorted_dates (group_by_date rows)"
  note inv = build_inv[OF assms(1)]
  from build_workouts(2)[OF assms(1)] have keys: "map fst (workouts st) = ?ds" .
  then have len: "length (workouts st) = length ?ds" by (metis length_map)
  from inv have "map snd (workouts st) = map w_id (workouts_tbl st)"
    "map w_id (workouts_tbl st) = [1..<Suc (length (workouts_tbl st))]"
    by (simp_all add: inv_all_def inv_dicts_def inv_ids_def)
  then have vals: "map snd (workouts st) = [1..<Suc (length (workouts st))]"
    by (metis length_map)
  from keys have "distinct (map fst (workouts st))" by (simp add: distinct_sorted_dates)
  with assms(2) len have "map_of (workouts st) (fst (workouts st ! i)) = Some (snd (workouts st ! i))"
    by (intro map_of_nth_distinct) simp_all
  moreover have "fst (workouts st ! i) = ?ds ! i"
  proof -
    have "fst (workouts st ! i) = map fst (workouts st) ! i" using assms(2) len by simp
    then show ?thesis by (simp only: keys)
  qed
  moreover have "snd (workouts st ! i) = Suc i"
  proof -
    have "snd (workouts st ! i) = map snd (workouts st) ! i" using assms(2) len by simp
    also have "\<dots> = [1..<Suc (length (workouts st))] ! i" by (simp only: vals)
    also have "\<dots> = Suc i" using assms(2) len by (simp del: upt_Suc)
    finally show ?thesis .
  qed
  ultimately show ?thesis by simp
qed

lemma id_order:
  fixes f g :: "'a \<Rightarrow> nat"
  assumes "map f xs = [1..<Suc (length xs)]" "sorted_wrt (<) (map g xs)"
    "x \<in> set xs" "y \<in> set xs" "g x < g y"
  shows "f x < f y"
proof -
  from assms(3,4) obtain i j where i: "i < length xs" "xs ! i = x" and j: "j < length xs" "xs ! j = y"
    by (auto simp: in_set_conv_nth)
  have "i < j"
  proof (rule ccontr)
    assume "\<not> i < j"
    then consider "j = i" | "j < i" by linarith
    then show False
    proof cases
      case 1
      with i j assms(5) show False by simp
    next
      case 2
      with assms(2) i have "map g xs ! j < map g xs ! i"
        by (intro sorted_wrt_nth_less) simp_all
      with i j assms(5) show False by simp
    qed
  qed
  have fi: "f (xs ! k) = Suc k" if "k < length xs" for k
  proof -
    have "f (xs ! k) = map f xs ! k" using that by simp
    also have "\<dots> = [1..<Suc (length xs)] ! k" by (simp only: assms(1))
    also have "\<dots> = Suc k" using that by (simp del: upt_Suc)
    finally show ?thesis .
  qed
  from fi[OF i(1)] fi[OF j(1)] i j \<open>i < j\<close> show ?thesis by simp
qed

lemma owned_uids:
  "u \<in> set (workout_uids st w) \<Longrightarrow> (w, u) \<in> set (owned st)"
  by (auto simp: workout_uids_def owned_def)

text \<open>
  C2. The date groups are not processed from the most recent workout to the oldest. Line 250
  sorts the date strings themselves, \<^verbatim>\<open>sorted(rows_by_date.keys(), reverse=True)\<close>, so
  what the script follows is the descending lexicographic order of the text: for two date
  values of the input with \<open>d2 < d1\<close> as strings, the workout of \<open>d1\<close> gets the smaller row
  id, and every row of that workout (the workout row, its workout_exercises rows and its
  sets rows) is inserted and has its uid minted before any row of the workout of \<open>d2\<close>. For
  dates written day/month/year, the format of the export, this is not the order of the
  calendar: in the example after the theorem the workout of 19 January 2026 is inserted
  before that of 2 February 2026.
\<close>

theorem C2_descending_string_order:
  assumes "fst (convert_rows env rows db_file) = Inr st"
    and "d1 \<noteq> []" "d1 \<in> date_of ` set rows" "d2 \<noteq> []" "d2 \<in> date_of ` set rows" "d2 < d1"
  shows "\<exists>w1 w2. map_of (workouts st) d1 = Some w1 \<and> map_of (workouts st) d2 = Some w2 \<and> w1 < w2 \<and>
           (\<forall>u \<in> set (workout_uids st w1). \<forall>v \<in> set (workout_uids st w2). u < v) \<and>
           (\<forall>x \<in> set (workout_exercises_tbl st). \<forall>y \<in> set (workout_exercises_tbl st).
              wx_workout_id x = w1 \<longrightarrow> wx_workout_id y = w2 \<longrightarrow> wx_id x < wx_id y) \<and>
           (\<forall>x \<in> set (sets_tbl st). \<forall>y \<in> set (sets_tbl st).
              s_workout_id x = w1 \<longrightarrow> s_workout_id y = w2 \<longrightarrow> s_id x < s_id y)"
proof -
  let ?ds = "sorted_dates (group_by_date rows)"
  from assms(1) have b: "build_hierarchy env rows = Inr st" by (simp add: convert_rows_Inr)
  note inv = build_inv[OF b]
  from assms(2,3) have "d1 \<in> set ?ds" by (simp add: set_sorted_dates)
  then obtain i where i: "i < length ?ds" "?ds ! i = d1" by (auto simp: in_set_conv_nth)
  from assms(4,5) have "d2 \<in> set ?ds" by (simp add: set_sorted_dates)
  then obtain j where j: "j < length ?ds" "?ds ! j = d2" by (auto simp: in_set_conv_nth)
  have "?ds ! j < ?ds ! i" using assms(6) by (simp only: i(2) j(2))
  then have ij: "i < j"
    by (rule sorted_rev_index[OF sorted_sorted_dates distinct_sorted_dates i(1) j(1)])
  from build_workout_ids[OF b i(1)] i(2) have w1: "map_of (workouts st) d1 = Some (Suc i)" by simp
  from build_workout_ids[OF b j(1)] j(2) have w2: "map_of (workouts st) d2 = Some (Suc j)" by simp
  have ord: "u < v" if "(a, u) \<in> set (owned st)" "(b, v) \<in> set (owned st)" "a < b" for a b u v
  proof -
    from inv have "\<forall>p \<in> set (owned st). \<forall>q \<in> set (owned st). fst p < fst q \<longrightarrow> snd p < snd q"
      by (simp add: inv_all_def inv_order_def)
    with that(1,2) have "fst (a, u) < fst (b, v) \<longrightarrow> snd (a, u) < snd (b, v)" by blast
    with that(3) show ?thesis by simp
  qed
  from ij have sij: "Suc i < Suc j" by simp
  have uids: "\<forall>u \<in> set (workout_uids st (Suc i)). \<forall>v \<in> set (workout_uids st (Suc j)). u < v"
  proof (intro ballI)
    fix u v assume "u \<in> set (workout_uids st (Suc i))" "v \<in> set (workout_uids st (Suc j))"
    then have "(Suc i, u) \<in> set (owned st)" "(Suc j, v) \<in> set (owned st)"
      by (simp_all add: owned_uids)
    then show "u < v" using sij by (rule ord)
  qed
  have links: "\<forall>x \<in> set (workout_exercises_tbl st). \<forall>y \<in> set (workout_exercises_tbl st).
              wx_workout_id x = Suc i \<longrightarrow> wx_workout_id y = Suc j \<longrightarrow> wx_id x < wx_id y"
  proof (intro ballI impI)
    fix x y assume xy: "x \<in> set (workout_exercises_tbl st)" "y \<in> set (workout_exercises_tbl st)"
      "wx_workout_id x = Suc i" "wx_workout_id y = Suc j"
    then have "(Suc i, wx_uid x) \<in> set (owned st)" "(Suc j, wx_uid y) \<in> set (owned st)"
      by (force simp: owned_def)+
    then have u: "wx_uid x < wx_uid y" using sij by (rule ord)
    from inv have "map wx_id (workout_exercises_tbl st) = [1..<Suc (length (workout_exercises_tbl st))]"
      "sorted_wrt (<) (map wx_uid (workout_exercises_tbl st))"
      by (simp_all add: inv_all_def inv_ids_def inv_seq_def)
    then show "wx_id x < wx_id y" using xy(1,2) u by (rule id_order)
  qed
  have sets: "\<forall>x \<in> set (sets_tbl st). \<forall>y \<in> set (sets_tbl st).
              s_workout_id x = Suc i \<longrightarrow> s_workout_id y = Suc j \<longrightarrow> s_id x < s_id y"
  proof (intro ballI impI)
    fix x y assume xy: "x \<in> set (sets_tbl st)" "y \<in> set (sets_tbl st)"
      "s_workout_id x = Suc i" "s_workout_id y = Suc j"
    then have "(Suc i, s_uid x) \<in> set (owned st)" "(Suc j, s_uid y) \<in> set (owned st)"
      by (force simp: owned_def)+
    then have u: "s_uid x < s_uid y" using sij by (rule ord)
    from inv have "map s_id (sets_tbl st) = [1..<Suc (length (sets_tbl st))]"
      "sorted_wrt (<) (map s_uid (sets_tbl st))"
      by (simp_all add: inv_all_def inv_ids_def inv_seq_def)
    then show "s_id x < s_id y" using xy(1,2) u by (rule id_order)
  qed
  from w1 w2 sij uids links sets show ?thesis
    by - (rule exI[of _ "Suc i"], rule exI[of _ "Suc j"], intro conjI; assumption)
qed

(* evaluation *)
lemma example_dates:
  "''19/01/2026'' \<in> date_of ` set example_rows" "''02/02/2026'' \<in> date_of ` set example_rows"
  by code_simp+

theorem C2_descending_string_order_witness:
  "fst (convert_rows example_runtime example_rows None) = Inr example_state
   \<and> ''02/02/2026'' < ''19/01/2026''
   \<and> (\<exists>w1 w2. map_of (workouts example_state) ''19/01/2026'' = Some w1 \<and>
          map_of (workouts example_state) ''02/02/2026'' = Some w2 \<and> w1 < w2 \<and>
          (\<forall>u \<in> set (workout_uids example_state w1).
             \<forall>v \<in> set (workout_uids example_state w2). u < v) \<and>
          (\<forall>x \<in> set (workout_exercises_tbl example_state).
             \<forall>y \<in> set (workout_exercises_tbl example_state).
               wx_workout_id x = w1 \<longrightarrow> wx_workout_id y = w2 \<longrightarrow> wx_id x < wx_id y) \<and>
          (\<forall>x \<in> set (sets_tbl example_state). \<forall>y \<in> set (sets_tbl example_state).
               s_workout_id x = w1 \<longrightarrow> s_workout_id y = w2 \<longrightarrow> s_id x < s_id y))"
proof -
  have lt: "''02/02/2026'' < ''19/01/2026''" by simp
  have ne: "''19/01/2026'' \<noteq> []" "''02/02/2026'' \<noteq> []" by simp_all
  show ?thesis
    using example_converts lt
      C2_descending_string_order [OF example_converts ne(1) example_dates(1) ne(2) example_dates(2) lt]
    by blast
qed

(* evaluation *)
lemma two_day_state:
  "fst (convert_rows example_runtime two_day_rows None) =
     Inr \<lparr>exercises_tbl =
            [\<lparr>e_id = 1, e_uid = 1, e_name = ''Squat'', e_created_at = 1768847400000\<rparr>],
          workouts_tbl =
            [\<lparr>w_id = 1, w_uid = 0, w_started_at = 1768847400000,
               w_completed_at = 1768847400000\<rparr>,
             \<lparr>w_id = 2, w_uid = 4, w_started_at = 1770016200000,
               w_completed_at = 1770016200000\<rparr>],
          workout_exercises_tbl =
            [\<lparr>wx_id = 1, wx_uid = 2, wx_workout_id = 1, wx_exercise_id = 1,
               wx_order_index = 0, wx_note = None, wx_performed_at = 1768847400000,
               wx_completed_at = 1768847400000\<rparr>,
             \<lparr>wx_id = 2, wx_uid = 5, wx_workout_id = 2, wx_exercise_id = 1,
               wx_order_index = 0, wx_note = None, wx_performed_at = 1770016200000,
               wx_completed_at = 1770016200000\<rparr>],
          sets_tbl =
            [\<lparr>s_id = 1, s_uid = 3, s_workout_id = 1, s_exercise_id = 1,
               s_workout_exercise_id = 1, s_set_index = 0, s_weight_kg = Some (Finite 100),
               s_reps = Some 5, s_note = None, s_performed_at = 1768847400000,
               s_is_warmup = 0\<rparr>,
             \<lparr>s_id = 2, s_uid = 6, s_workout_id = 2, s_exercise_id = 1,
               s_workout_exercise_id = 2, s_set_index = 0, s_weight_kg = Some (Finite 100),
               s_reps = Some 5, s_note = None, s_performed_at = 1770016200000,
               s_is_warmup = 0\<rparr>],
          exercises = [(''Squat'', 1)],
          workouts = [(''19/01/2026'', 1), (''02/02/2026'', 2)],
          workout_exercises = [((1, 1), 1), ((2, 1), 2)],
          set_count = 2, uid_count = 7, clock = 0\<rparr>"
  by code_simp

(* evaluation *)
lemma two_day_order:
  "parse_datetime example_runtime ''19/01/2026'' ''00:00'' 0 = Inr (1768780800000, 0)"
  "parse_datetime example_runtime ''02/02/2026'' ''00:00'' 0 = Inr (1769990400000, 0)"
  by code_simp+

theorem C2_counterexample:
  "parse_datetime example_runtime ''19/01/2026'' ''00:00'' 0 = Inr (1768780800000, 0)
   \<and> parse_datetime example_runtime ''02/02/2026'' ''00:00'' 0 = Inr (1769990400000, 0)
   \<and> workouts (projr (fst (convert_rows example_runtime two_day_rows None))) =
        [(''19/01/2026'', 1), (''02/02/2026'', 2)]
   \<and> map w_started_at (workouts_tbl (projr (fst (convert_rows example_runtime two_day_rows None)))) =
        [1768847400000, 1770016200000]
   \<and> map w_uid (workouts_tbl (projr (fst (convert_rows example_runtime two_day_rows None)))) = [0, 4]
   \<and> map s_workout_id (sets_tbl (projr (fst (convert_rows example_runtime two_day_rows None)))) = [1, 2]
   \<and> map s_id (sets_tbl (projr (fst (convert_rows example_runtime two_day_rows None)))) = [1, 2]
   \<and> map s_uid (sets_tbl (projr (fst (convert_rows example_runtime two_day_rows None)))) = [3, 6]"
  using two_day_order by (simp add: two_day_state)

lemma fold_dict_set_pairs:
  "distinct (map fst ps) \<Longrightarrow> set (map fst ps) \<inter> fst ` set acc = {} \<Longrightarrow>
   fold (\<lambda>(k, v) d. dict_set d k (g v)) ps acc = acc @ map (\<lambda>(k, v). (k, g v)) ps"
proof (induction ps arbitrary: acc)
  case Nil
  then show ?case by simp
next
  case (Cons p ps)
  obtain k v where p: "p = (k, v)" by (cases p)
  from Cons.prems p have fresh: "map_of acc k = None" by (auto simp: map_of_eq_None_iff)
  from Cons.prems p have "distinct (map fst ps)"
    "set (map fst ps) \<inter> fst ` set (acc @ [(k, g v)]) = {}" by auto
  from Cons.IH[OF this] fresh show ?case by (simp add: p dict_set_fresh)
qed

lemma fold_dict_set_keys:
  "distinct ks \<Longrightarrow> set ks \<inter> fst ` set acc = {} \<Longrightarrow>
   fold (\<lambda>k d. dict_set d k c) ks acc = acc @ map (\<lambda>k. (k, c)) ks"
proof (induction ks arbitrary: acc)
  case Nil
  then show ?case by simp
next
  case (Cons k ks)
  from Cons.prems have fresh: "map_of acc k = None" by (auto simp: map_of_eq_None_iff)
  from Cons.prems have "distinct ks" "set ks \<inter> fst ` set (acc @ [(k, c)]) = {}" by auto
  from Cons.IH[OF this] fresh show ?case by (simp add: dict_set_fresh)
qed

lemma dict_reader_row_distinct:
  assumes "distinct H"
  shows "dict_reader_row H r =
           map (\<lambda>(k, v). (k, Some v)) (zip H r) @ map (\<lambda>k. (k, None)) (drop (length r) H)"
proof -
  have d1: "distinct (map fst (zip H r))"
    using assms by (simp add: distinct_zipI1 map_fst_zip_take)
  have a: "fold (\<lambda>(k, v) d. dict_set d k (Some v)) (zip H r) [] =
        map (\<lambda>(k, v). (k, Some v)) (zip H r)"
    using fold_dict_set_pairs[OF d1, of "[]" Some] by simp
  have "set (drop (length r) H) \<inter> set (take (length r) H) = {}"
    using assms by (metis append_take_drop_id distinct_append inf_commute)
  moreover have "fst ` set (map (\<lambda>(k, v). (k, Some v)) (zip H r)) \<subseteq> set (take (length r) H)"
  proof -
    have "fst ` set (map (\<lambda>(k, v). (k, Some v)) (zip H r)) = set (map fst (zip H r))"
      by force
    also have "\<dots> = set (take (min (length H) (length r)) H)"
      by (simp only: map_fst_zip_take)
    also have "\<dots> \<subseteq> set (take (length r) H)"
      by (rule set_take_subset_set_take) simp
    finally show ?thesis .
  qed
  ultimately have dis: "set (drop (length r) H) \<inter> fst ` set (map (\<lambda>(k, v). (k, Some v)) (zip H r)) = {}"
    by blast
  have "distinct (drop (length r) H)" using assms by simp
  from fold_dict_set_keys[OF this dis] a show ?thesis
    by (simp add: dict_reader_row_def)
qed

lemma clean_row_distinct:
  assumes "distinct (map (\<lambda>p. py_strip (fst p)) raw)" "[] \<notin> fst ` set raw"
  shows "clean_row raw = map (\<lambda>(k, v). (py_strip k, clean_value v)) raw"
proof -
  have "fold (\<lambda>(key, v) clean. if key \<noteq> [] then dict_set clean (py_strip key) (clean_value v) else clean)
          raw acc = acc @ map (\<lambda>(k, v). (py_strip k, clean_value v)) raw"
    if "distinct (map (\<lambda>p. py_strip (fst p)) raw)" "[] \<notin> fst ` set raw"
      "set (map (\<lambda>p. py_strip (fst p)) raw) \<inter> fst ` set acc = {}" for acc
    using that
  proof (induction raw arbitrary: acc)
    case Nil
    then show ?case by simp
  next
    case (Cons p raw)
    obtain k v where p: "p = (k, v)" by (cases p)
    from Cons.prems p have k: "k \<noteq> []" by auto
    from Cons.prems p have fresh: "map_of acc (py_strip k) = None"
      by (auto simp: map_of_eq_None_iff)
    from Cons.prems p have "distinct (map (\<lambda>p. py_strip (fst p)) raw)" "[] \<notin> fst ` set raw"
      "set (map (\<lambda>p. py_strip (fst p)) raw) \<inter> fst ` set (acc @ [(py_strip k, clean_value v)]) = {}"
      by auto
    from Cons.IH[OF this] k fresh show ?case by (simp add: p dict_set_fresh)
  qed
  from this[of "[]"] assms show ?thesis by (simp add: clean_row_def)
qed

lemma py_strip_Nil: "py_strip [] = []"
  by (simp add: py_strip_def)

lemma clean_dict_reader_row:
  assumes "distinct (map py_strip H)" "[] \<notin> set (map py_strip H)"
  shows "clean_row (dict_reader_row H r) =
           zip (map py_strip H) (map (\<lambda>v. clean_value (Some v)) r) @
           map (\<lambda>k. (k, [])) (drop (length r) (map py_strip H))"
proof -
  from assms(1) have dH: "distinct H" by (simp add: distinct_map)
  from assms(2) have ne: "[] \<notin> set H" using py_strip_Nil by force
  let ?raw = "map (\<lambda>(k, v). (k, Some v)) (zip H r) @ map (\<lambda>k. (k, None)) (drop (length r) H)"
  have "map fst (map (\<lambda>(k, v). (k, Some v)) (zip H r)) = map fst (zip H r)"
    by (simp add: comp_def case_prod_unfold)
  then have "map fst ?raw = take (min (length H) (length r)) H @ drop (length r) H"
    by (simp add: map_fst_zip_take comp_def)
  also have "\<dots> = H" by (cases "length r \<le> length H") (simp_all add: min_def)
  finally have keys: "map fst ?raw = H" .
  have "map (\<lambda>p. py_strip (fst p)) ?raw = map py_strip (map fst ?raw)" by (simp add: comp_def)
  also have "\<dots> = map py_strip H" by (simp only: keys)
  finally have sk: "map (\<lambda>p. py_strip (fst p)) ?raw = map py_strip H" .
  have "fst ` set ?raw = set (map fst ?raw)" by (metis list.set_map)
  also have "\<dots> = set H" by (simp only: keys)
  finally have "[] \<notin> fst ` set ?raw" using ne by simp
  with sk assms(1) have "clean_row ?raw = map (\<lambda>(k, v). (py_strip k, clean_value v)) ?raw"
    by (intro clean_row_distinct) simp_all
  also have "\<dots> = zip (map py_strip H) (map (\<lambda>v. clean_value (Some v)) r) @
           map (\<lambda>k. (k, [])) (drop (length r) (map py_strip H))"
    by (simp add: zip_map_map drop_map comp_def clean_value_def case_prod_unfold zip_map1 zip_map2)
  finally show ?thesis by (simp add: dict_reader_row_distinct[OF dH])
qed

text \<open>
  C3 (as amended). Column names are matched after trimming but with their letter case:
  two header lines whose names are non-blank, distinct after trimming and equal after
  trimming give the same extracted records, hence the same result of the conversion.
  Names that differ in letter case are different columns.
\<close>

theorem C3_header_whitespace_insensitive:
  assumes "map py_strip H1 = map py_strip H2"
    and "distinct (map py_strip H1)" and "[] \<notin> set (map py_strip H1)"
  shows "read_csv H1 data = read_csv H2 data
         \<and> convert_csv_to_db env H1 data db_file = convert_csv_to_db env H2 data db_file"
proof -
  from assms have 2: "distinct (map py_strip H2)" "[] \<notin> set (map py_strip H2)" by simp_all
  have "clean_row (dict_reader_row H1 r) = clean_row (dict_reader_row H2 r)" for r
    by (simp only: clean_dict_reader_row[OF assms(2,3)] clean_dict_reader_row[OF 2] assms(1))
  then have "read_csv H1 data = read_csv H2 data" by (simp add: read_csv_def)
  then show ?thesis by (simp add: convert_csv_to_db_def)
qed

(* evaluation *)
lemma spaced_header_strip: "map py_strip spaced_header = map py_strip example_header"
  by code_simp

(* evaluation *)
lemma example_header_distinct:
  "distinct (map py_strip spaced_header)" "[] \<notin> set (map py_strip spaced_header)"
  by code_simp+

theorem C3_header_whitespace_insensitive_witness:
  "map py_strip spaced_header = map py_strip example_header
   \<and> distinct (map py_strip spaced_header) \<and> [] \<notin> set (map py_strip spaced_header)
   \<and> read_csv spaced_header example_data = read_csv example_header example_data
   \<and> convert_csv_to_db example_runtime spaced_header example_data None =
       convert_csv_to_db example_runtime example_header example_data None"
  using spaced_header_strip example_header_distinct
    C3_header_whitespace_insensitive [OF spaced_header_strip example_header_distinct,
      of example_data example_runtime None]
  by simp

(* evaluation *)
lemma lower_header_state:
  "map (map ascii_lower) lower_header = map (map ascii_lower) example_header"
  "fst (convert_csv_to_db example_runtime lower_header
          [[''someday'', ''late'', ''Plank'', '''', '''', '''']] None) = Inr init_state"
  "length (sets_tbl (projr (fst (convert_csv_to_db example_runtime example_header
          [[''someday'', ''late'', ''Plank'', '''', '''', '''']] None)))) = 1"
  by code_simp+

theorem C3_counterexample:
  "map (map ascii_lower) lower_header = map (map ascii_lower) example_header
   \<and> fst (convert_csv_to_db example_runtime lower_header
          [[''someday'', ''late'', ''Plank'', '''', '''', '''']] None) = Inr init_state
   \<and> length (sets_tbl init_state) = 0
   \<and> length (sets_tbl (projr (fst (convert_csv_to_db example_runtime example_header
          [[''someday'', ''late'', ''Plank'', '''', '''', '''']] None)))) = 1"
  using lower_header_state by (simp add: init_state_def)





lemma link_ids_distinct:
  assumes "inv_all st"
  shows "distinct (map wx_id (workout_exercises_tbl st))"
proof -
  from assms have "map wx_id (workout_exercises_tbl st) = [1..<Suc (length (workout_exercises_tbl st))]"
    by (simp add: inv_all_def inv_ids_def)
  then show ?thesis by (simp only: distinct_upt)
qed

lemma plan_member:
  "p \<in> set (plan rows) \<Longrightarrow>
   snd (snd p) \<in> set rows \<and> date_of (snd (snd p)) = fst p \<and> fst p \<noteq> [] \<and>
   exercise_of (snd (snd p)) = fst (snd p) \<and> fst (snd p) \<noteq> []"
  by (cases p) (auto simp: set_plan)

lemma list_all2_right_mono:
  "list_all2 P xs ys \<Longrightarrow> (\<And>x y. y \<in> set ys \<Longrightarrow> P x y \<Longrightarrow> Q x y) \<Longrightarrow> list_all2 Q xs ys"
  by (induction rule: list_all2_induct) auto

text \<open>
  C10. The references on a sets row agree with each other. Its \<open>workout_exercise_id\<close>
  identifies exactly one row of workout_exercises, and that row has the same \<open>workout_id\<close>
  and the same \<open>exercise_id\<close> as the sets row. The sets rows are, in table order, the
  records of \<open>plan rows\<close> (the records in the order the nested iteration visits them, each with
  the date of its group and its trimmed exercise name), and the \<open>workout_id\<close> of each is
  the id stored for the date of the group the record has come from, which is the record's
  own Date field.
\<close>

theorem C10_set_references_consistent:
  assumes "fst (convert_rows env rows db_file) = Inr st"
  shows "(\<forall>s \<in> set (sets_tbl st). \<exists>x \<in> set (workout_exercises_tbl st).
            wx_id x = s_workout_exercise_id s \<and>
            (\<forall>y \<in> set (workout_exercises_tbl st). wx_id y = s_workout_exercise_id s \<longrightarrow> y = x) \<and>
            wx_workout_id x = s_workout_id s \<and> wx_exercise_id x = s_exercise_id s)
         \<and> list_all2 (\<lambda>s p. date_of (snd (snd p)) = fst p \<and>
                              map_of (workouts st) (fst p) = Some (s_workout_id s))
              (sets_tbl st) (plan rows)"
proof -
  from assms have b: "build_hierarchy env rows = Inr st" by (simp add: convert_rows_Inr)
  note inv = build_inv[OF b]
  have refs: "\<forall>s \<in> set (sets_tbl st). \<exists>x \<in> set (workout_exercises_tbl st).
            wx_id x = s_workout_exercise_id s \<and>
            (\<forall>y \<in> set (workout_exercises_tbl st). wx_id y = s_workout_exercise_id s \<longrightarrow> y = x) \<and>
            wx_workout_id x = s_workout_id s \<and> wx_exercise_id x = s_exercise_id s"
  proof
    fix s assume "s \<in> set (sets_tbl st)"
    with inv obtain x where x: "x \<in> set (workout_exercises_tbl st)"
      "wx_id x = s_workout_exercise_id s" "wx_workout_id x = s_workout_id s"
      "wx_exercise_id x = s_exercise_id s"
      unfolding inv_all_def inv_refs_def by blast
    have "\<forall>y \<in> set (workout_exercises_tbl st). wx_id y = s_workout_exercise_id s \<longrightarrow> y = x"
    proof (intro ballI impI)
      fix y assume "y \<in> set (workout_exercises_tbl st)" "wx_id y = s_workout_exercise_id s"
      moreover from link_ids_distinct[OF inv] have "inj_on wx_id (set (workout_exercises_tbl st))"
        by (simp add: distinct_map)
      ultimately show "y = x" using x(1,2) by (metis inj_onD)
    qed
    with x show "\<exists>x \<in> set (workout_exercises_tbl st).
            wx_id x = s_workout_exercise_id s \<and>
            (\<forall>y \<in> set (workout_exercises_tbl st). wx_id y = s_workout_exercise_id s \<longrightarrow> y = x) \<and>
            wx_workout_id x = s_workout_id s \<and> wx_exercise_id x = s_exercise_id s"
      by blast
  qed
  have "list_all2 (\<lambda>s p. date_of (snd (snd p)) = fst p \<and>
                              map_of (workouts st) (fst p) = Some (s_workout_id s))
              (sets_tbl st) (plan rows)"
    using build_sets[OF b]
  proof (rule list_all2_right_mono)
    fix s p assume p: "p \<in> set (plan rows)" and sp: "set_in_plan env st s p"
    from plan_member[OF p] have "date_of (snd (snd p)) = fst p" by simp
    moreover from sp have "map_of (workouts st) (fst p) = Some (s_workout_id s)"
      by (auto simp: set_in_plan_def set_in_group_def set_of_row_def)
    ultimately show "date_of (snd (snd p)) = fst p \<and>
        map_of (workouts st) (fst p) = Some (s_workout_id s)" by simp
  qed
  with refs show ?thesis by (rule conjI)
qed

lemma keys_group_by_exercise:
  "map fst (group_by_exercise rows) = first_seen (filter (\<lambda>n. n \<noteq> []) (map exercise_of rows))"
  by (simp add: group_by_exercise_eq keys_group_rows first_seen_def exercise_of_def[abs_def])

text \<open>
  C6. In every workout the \<open>order_index\<close> values of its workout_exercises rows, read in
  insertion order, are \<open>0, 1, 2, \<dots>\<close> without gaps (the counter starts again at zero for
  each workout). For the workout of a date \<open>d\<close>, these rows correspond one by one to the
  distinct trimmed non-empty exercise names of that date's records in the order of their
  first occurrence: the \<open>i\<close>-th row refers to the exercise stored under the \<open>i\<close>-th name.
\<close>

theorem C6_dense_order_index:
  assumes "fst (convert_rows env rows db_file) = Inr st"
    and "d \<noteq> []" and "d \<in> date_of ` set rows"
  shows "(\<forall>w. map wx_order_index (filter (\<lambda>x. wx_workout_id x = w) (workout_exercises_tbl st)) =
               [0..<length (filter (\<lambda>x. wx_workout_id x = w) (workout_exercises_tbl st))])
         \<and> (\<exists>wid. map_of (workouts st) d = Some wid \<and>
               list_all2 (\<lambda>x n. map_of (exercises st) n = Some (wx_exercise_id x))
                 (filter (\<lambda>x. wx_workout_id x = wid) (workout_exercises_tbl st))
                 (first_seen (filter (\<lambda>n. n \<noteq> [])
                    (map exercise_of (filter (\<lambda>r. date_of r = d) rows)))))"
proof -
  from assms(1) have b: "build_hierarchy env rows = Inr st" by (simp add: convert_rows_Inr)
  from build_inv[OF b] have dense:
    "\<forall>w. map wx_order_index (filter (\<lambda>x. wx_workout_id x = w) (workout_exercises_tbl st)) =
               [0..<length (filter (\<lambda>x. wx_workout_id x = w) (workout_exercises_tbl st))]"
    by (simp add: inv_all_def inv_dense_def)
  let ?groups = "group_by_exercise (filter (\<lambda>r. date_of r = d) rows)"
  from build_links[OF b assms(2,3)] obtain wid where wid: "map_of (workouts st) d = Some wid"
    and links: "list_all2 (link_of_group env st d wid)
        (filter (\<lambda>x. wx_workout_id x = wid) (workout_exercises_tbl st)) ?groups"
    by blast
  from links have "list_all2 (\<lambda>x g. map_of (exercises st) (fst g) = Some (wx_exercise_id x))
        (filter (\<lambda>x. wx_workout_id x = wid) (workout_exercises_tbl st)) ?groups"
    by (rule list_all2_mono) (auto simp: link_of_group_def wx_of_group_def)
  then have "list_all2 (\<lambda>x n. map_of (exercises st) n = Some (wx_exercise_id x))
        (filter (\<lambda>x. wx_workout_id x = wid) (workout_exercises_tbl st)) (map fst ?groups)"
    by (simp add: list_all2_map2)
  then have names: "list_all2 (\<lambda>x n. map_of (exercises st) n = Some (wx_exercise_id x))
        (filter (\<lambda>x. wx_workout_id x = wid) (workout_exercises_tbl st))
        (first_seen (filter (\<lambda>n. n \<noteq> []) (map exercise_of (filter (\<lambda>r. date_of r = d) rows))))"
    by (simp only: keys_group_by_exercise)
  from wid names have "\<exists>wid. map_of (workouts st) d = Some wid \<and>
               list_all2 (\<lambda>x n. map_of (exercises st) n = Some (wx_exercise_id x))
                 (filter (\<lambda>x. wx_workout_id x = wid) (workout_exercises_tbl st))
                 (first_seen (filter (\<lambda>n. n \<noteq> [])
                    (map exercise_of (filter (\<lambda>r. date_of r = d) rows))))"
    by - (rule exI[of _ wid], rule conjI; assumption)
  with dense show ?thesis by (rule conjI)
qed

theorem C6_dense_order_index_witness:
  "fst (convert_rows example_runtime example_rows None) = Inr example_state
   \<and> ''19/01/2026'' \<in> date_of ` set example_rows
   \<and> (\<forall>w. map wx_order_index
              (filter (\<lambda>x. wx_workout_id x = w) (workout_exercises_tbl example_state)) =
            [0..<length (filter (\<lambda>x. wx_workout_id x = w) (workout_exercises_tbl example_state))])
   \<and> (\<exists>wid. map_of (workouts example_state) ''19/01/2026'' = Some wid \<and>
          list_all2 (\<lambda>x n. map_of (exercises example_state) n = Some (wx_exercise_id x))
            (filter (\<lambda>x. wx_workout_id x = wid) (workout_exercises_tbl example_state))
            (first_seen (filter (\<lambda>n. n \<noteq> [])
               (map exercise_of (filter (\<lambda>r. date_of r = ''19/01/2026'') example_rows)))))"
proof -
  have ne: "''19/01/2026'' \<noteq> []" by simp
  show ?thesis
    using example_converts example_dates(1)
      C6_dense_order_index [OF example_converts ne example_dates(1)]
    by (intro conjI) (assumption, assumption, blast, blast)
qed

lemma first_seen_props:
  "distinct (first_seen xs)" "set (first_seen xs) = set xs"
  by (simp_all add: first_seen_def distinct_first_seen_from set_first_seen_from)

text \<open>
  C5 (as amended). Every distinct exercise name that occurs, trimmed and non-empty, in a
  record with a non-empty date gets exactly one row of the exercises table for the whole
  run; the rows are created in the order in which the names are first met by the iteration
  (\<open>plan rows\<close> lists the records in that order), however many dates use a name. The
  dictionary of the run stores for each name the id of its row, and every sets row of a
  later record with that name carries this stored id. A name that occurs only in records
  without a date gets no row.
\<close>

theorem C5_one_exercise_per_name:
  assumes "fst (convert_rows env rows db_file) = Inr st"
  shows "map e_name (exercises_tbl st) = first_seen (map (\<lambda>p. fst (snd p)) (plan rows))
         \<and> distinct (map e_name (exercises_tbl st))
         \<and> set (map e_name (exercises_tbl st)) =
             {n. n \<noteq> [] \<and> (\<exists>r \<in> set rows. date_of r \<noteq> [] \<and> exercise_of r = n)}
         \<and> exercises st = map (\<lambda>e. (e_name e, e_id e)) (exercises_tbl st)
         \<and> list_all2 (\<lambda>s p. map_of (exercises st) (fst (snd p)) = Some (s_exercise_id s))
              (sets_tbl st) (plan rows)"
proof -
  from assms have b: "build_hierarchy env rows = Inr st" by (simp add: convert_rows_Inr)
  note names = build_names[OF b]
  have d: "distinct (map e_name (exercises_tbl st))"
    by (simp only: names first_seen_props)
  have "set (map e_name (exercises_tbl st)) = (\<lambda>p. fst (snd p)) ` set (plan rows)"
    by (simp only: names first_seen_props set_map)
  also have "\<dots> = {n. n \<noteq> [] \<and> (\<exists>r \<in> set rows. date_of r \<noteq> [] \<and> exercise_of r = n)}"
    by (force simp: set_plan)
  finally have s: "set (map e_name (exercises_tbl st)) =
             {n. n \<noteq> [] \<and> (\<exists>r \<in> set rows. date_of r \<noteq> [] \<and> exercise_of r = n)}" .
  from build_inv[OF b] have m: "exercises st = map (\<lambda>e. (e_name e, e_id e)) (exercises_tbl st)"
    by (simp add: inv_all_def inv_dicts_def)
  have r: "list_all2 (\<lambda>s p. map_of (exercises st) (fst (snd p)) = Some (s_exercise_id s))
              (sets_tbl st) (plan rows)"
    using build_sets[OF b]
    by (rule list_all2_mono) (auto simp: set_in_plan_def set_in_group_def set_of_row_def)
  from names d s m r show ?thesis by (intro conjI)
qed

theorem C5_one_exercise_per_name_witness:
  "fst (convert_rows example_runtime example_rows None) = Inr example_state
   \<and> map e_name (exercises_tbl example_state) =
       first_seen (map (\<lambda>p. fst (snd p)) (plan example_rows))
   \<and> distinct (map e_name (exercises_tbl example_state))
   \<and> set (map e_name (exercises_tbl example_state)) =
       {n. n \<noteq> [] \<and> (\<exists>r \<in> set example_rows. date_of r \<noteq> [] \<and> exercise_of r = n)}
   \<and> exercises example_state = map (\<lambda>e. (e_name e, e_id e)) (exercises_tbl example_state)
   \<and> list_all2 (\<lambda>s p. map_of (exercises example_state) (fst (snd p)) = Some (s_exercise_id s))
        (sets_tbl example_state) (plan example_rows)"
  using example_converts C5_one_exercise_per_name [OF example_converts]
  by (intro conjI) (assumption, blast+)

(* evaluation *)
lemma dateless_only:
  "map exercise_of (read_csv example_header
       [['''', ''07:20'', ''Deadlift'', '''', '''', ''warm up'']]) = [''Deadlift'']"
  "fst (convert_csv_to_db example_runtime example_header
       [['''', ''07:20'', ''Deadlift'', '''', '''', ''warm up'']] None) = Inr init_state"
  by code_simp+

theorem C5_counterexample:
  "map exercise_of (read_csv example_header
       [['''', ''07:20'', ''Deadlift'', '''', '''', ''warm up'']]) = [''Deadlift'']
   \<and> fst (convert_csv_to_db example_runtime example_header
       [['''', ''07:20'', ''Deadlift'', '''', '''', ''warm up'']] None) = Inr init_state
   \<and> exercises_tbl init_state = []"
  using dateless_only by (simp add: init_state_def)


lemma list_all2_right_member:
  "list_all2 P xs ys \<Longrightarrow> y \<in> set ys \<Longrightarrow> \<exists>x \<in> set xs. P x y"
  by (induction rule: list_all2_induct) auto

lemma plan_has_row:
  "r \<in> set rows \<Longrightarrow> date_of r \<noteq> [] \<Longrightarrow> exercise_of r \<noteq> [] \<Longrightarrow>
   (date_of r, exercise_of r, r) \<in> set (plan rows)"
  by (simp add: set_plan)

lemma build_set_of_row:
  assumes "build_hierarchy env rows = Inr st" "r \<in> set rows" "date_of r \<noteq> []" "exercise_of r \<noteq> []"
  obtains s wid eid weid i where "s \<in> set (sets_tbl st)"
    "set_of_row env (date_of r) wid eid weid i r s"
proof -
  from plan_has_row[OF assms(2-4)] build_sets[OF assms(1)]
  obtain s where s: "s \<in> set (sets_tbl st)" "set_in_plan env st s (date_of r, exercise_of r, r)"
    by (meson list_all2_right_member)
  then show thesis by (auto simp: set_in_plan_def set_in_group_def intro: that)
qed


lemma plank_facts:
  "plank_row \<in> set example_rows"
  "strptime_ms example_runtime (date_of plank_row @ '' '' @ time_of plank_row) ''%d/%m/%Y %H:%M'' =
     Inl ValueError"
  "strptime_ms example_runtime (date_of plank_row @ '' '' @ time_of plank_row) ''%Y-%m-%d %H:%M'' =
     Inl ValueError"
  "\<forall>r' \<in> set example_rows. date_of r' \<noteq> [] \<and> exercise_of r' \<noteq> [] \<longrightarrow> numeric_ok example_runtime r'"
  "date_of plank_row \<noteq> []" "exercise_of plank_row \<noteq> []"
  "date_of plank_row = ''someday''" "time_of plank_row = ''late''"
  by code_simp+

(* evaluation *)



theorem C10_set_references_consistent_witness:
  "fst (convert_rows example_runtime example_rows None) = Inr example_state
   \<and> (\<exists>s \<in> set (sets_tbl example_state). \<exists>x \<in> set (workout_exercises_tbl example_state).
          wx_id x = s_workout_exercise_id s \<and> wx_workout_id x = s_workout_id s \<and>
          wx_exercise_id x = s_exercise_id s)
   \<and> list_all2 (\<lambda>s p. date_of (snd (snd p)) = fst p \<and>
                        map_of (workouts example_state) (fst p) = Some (s_workout_id s))
        (sets_tbl example_state) (plan example_rows)"
proof -
  note C = C10_set_references_consistent [OF example_converts]
  from example_built plank_facts(1,5,6) obtain s wid eid weid i where
    s: "s \<in> set (sets_tbl example_state)"
    "set_of_row example_runtime (date_of plank_row) wid eid weid i plank_row s"
    by (rule build_set_of_row)
  from C s(1) have "\<exists>x \<in> set (workout_exercises_tbl example_state).
          wx_id x = s_workout_exercise_id s \<and> wx_workout_id x = s_workout_id s \<and>
          wx_exercise_id x = s_exercise_id s"
    by blast
  with s(1) have a: "\<exists>s \<in> set (sets_tbl example_state).
      \<exists>x \<in> set (workout_exercises_tbl example_state).
          wx_id x = s_workout_exercise_id s \<and> wx_workout_id x = s_workout_id s \<and>
          wx_exercise_id x = s_exercise_id s"
    by blast
  from C have b: "list_all2 (\<lambda>s p. date_of (snd (snd p)) = fst p \<and>
                        map_of (workouts example_state) (fst p) = Some (s_workout_id s))
        (sets_tbl example_state) (plan example_rows)"
    by (rule conjunct2)
  from example_converts a b show ?thesis by (intro conjI)
qed

lemma numeric_ok_fields:
  "numeric_ok env r \<longleftrightarrow>
     (weight_of r = [] \<or> py_float env (weight_of r) \<noteq> None) \<and>
     (reps_of r = [] \<or> (\<exists>n. py_int env (reps_of r) = Some n \<and> - (2 ^ 63) \<le> n \<and> n < 2 ^ 63))"
  by (auto simp: numeric_ok_def weight_of_def reps_of_def split: option.splits)

lemma sqlite_real_None:
  "sqlite_real v = None \<longleftrightarrow> v = None \<or> v = Some NaN"
  by (auto simp: sqlite_real_def split: option.splits float_value.splits)

text \<open>
  C8 (as amended). For every record that has a date and a trimmed exercise name: if its
  weight or its reps field is non-blank and the numeric parse rejects it, or its reps is a
  number outside the signed 64-bit range of an SQLite INTEGER, the whole run ends with an
  uncaught exception, exit status 1, and no data row is committed. When the run completes,
  the sets rows are the processed records in loop order. A row's reps is absent exactly
  when the record's field is blank and is the parsed number otherwise. A row's weight is
  absent when the record's field is blank or parses to not-a-number, which SQLite stores as
  NULL, and is the parsed number otherwise. No value is defaulted. A record without a date
  or exercise name is skipped before its weight and reps are looked at.
\<close>

theorem C8_numeric_fields:
  assumes "r \<in> set rows" and "date_of r \<noteq> []" and "exercise_of r \<noteq> []"
  shows "((weight_of r \<noteq> [] \<and> py_float env (weight_of r) = None) \<or>
          (reps_of r \<noteq> [] \<and> py_int env (reps_of r) = None) \<or>
          (reps_of r \<noteq> [] \<and>
             (\<exists>n. py_int env (reps_of r) = Some n \<and> \<not> (- (2 ^ 63) \<le> n \<and> n < 2 ^ 63))) \<longrightarrow>
            (\<exists>x. convert_rows env rows db_file = (Inl (Uncaught x), Some empty_database)) \<and>
            exit_status (fst (convert_rows env rows db_file)) = 1)
         \<and> (\<forall>st. fst (convert_rows env rows db_file) = Inr st \<longrightarrow>
               (date_of r, exercise_of r, r) \<in> set (plan rows) \<and>
               list_all2 (\<lambda>s p.
                   s_weight_kg s = (if weight_of (snd (snd p)) = [] then None
                                    else sqlite_real (py_float env (weight_of (snd (snd p))))) \<and>
                   (weight_of (snd (snd p)) \<noteq> [] \<longrightarrow>
                      py_float env (weight_of (snd (snd p))) \<noteq> None) \<and>
                   (s_weight_kg s = None \<longleftrightarrow>
                      weight_of (snd (snd p)) = [] \<or>
                      py_float env (weight_of (snd (snd p))) = Some NaN) \<and>
                   s_reps s = (if reps_of (snd (snd p)) = [] then None
                               else py_int env (reps_of (snd (snd p)))) \<and>
                   (reps_of (snd (snd p)) \<noteq> [] \<longrightarrow> s_reps s \<noteq> None))
                 (sets_tbl st) (plan rows))"
proof -
  from assms(1) have ne: "rows \<noteq> []" by auto
  have fatal: "(\<exists>x. convert_rows env rows db_file = (Inl (Uncaught x), Some empty_database)) \<and>
            exit_status (fst (convert_rows env rows db_file)) = 1"
    if bad: "(weight_of r \<noteq> [] \<and> py_float env (weight_of r) = None) \<or>
          (reps_of r \<noteq> [] \<and> py_int env (reps_of r) = None) \<or>
          (reps_of r \<noteq> [] \<and>
             (\<exists>n. py_int env (reps_of r) = Some n \<and> \<not> (- (2 ^ 63) \<le> n \<and> n < 2 ^ 63)))"
  proof (cases "build_hierarchy env rows")
    case (Inl x)
    with ne show ?thesis by (simp add: convert_rows_def)
  next
    case (Inr st)
    from Inr assms obtain s wid eid weid i where
      "set_of_row env (date_of r) wid eid weid i r s"
      by (rule build_set_of_row)
    then have "numeric_ok env r" by (auto simp: set_of_row_def numeric_ok_iff)
    then have "(weight_of r = [] \<or> py_float env (weight_of r) \<noteq> None) \<and>
       (reps_of r = [] \<or> (\<exists>n. py_int env (reps_of r) = Some n \<and> - (2 ^ 63) \<le> n \<and> n < 2 ^ 63))"
      by (simp only: numeric_ok_fields)
    with bad show ?thesis by auto
  qed
  have ok: "(date_of r, exercise_of r, r) \<in> set (plan rows) \<and>
               list_all2 (\<lambda>s p.
                   s_weight_kg s = (if weight_of (snd (snd p)) = [] then None
                                    else sqlite_real (py_float env (weight_of (snd (snd p))))) \<and>
                   (weight_of (snd (snd p)) \<noteq> [] \<longrightarrow>
                      py_float env (weight_of (snd (snd p))) \<noteq> None) \<and>
                   (s_weight_kg s = None \<longleftrightarrow>
                      weight_of (snd (snd p)) = [] \<or>
                      py_float env (weight_of (snd (snd p))) = Some NaN) \<and>
                   s_reps s = (if reps_of (snd (snd p)) = [] then None
                               else py_int env (reps_of (snd (snd p)))) \<and>
                   (reps_of (snd (snd p)) \<noteq> [] \<longrightarrow> s_reps s \<noteq> None))
                 (sets_tbl st) (plan rows)"
    if "fst (convert_rows env rows db_file) = Inr st" for st
  proof -
    from that have b: "build_hierarchy env rows = Inr st" by (simp add: convert_rows_Inr)
    have row: "s_weight_kg s = (if weight_of q = [] then None
                                else sqlite_real (py_float env (weight_of q))) \<and>
               (weight_of q \<noteq> [] \<longrightarrow> py_float env (weight_of q) \<noteq> None) \<and>
               (s_weight_kg s = None \<longleftrightarrow> weight_of q = [] \<or> py_float env (weight_of q) = Some NaN) \<and>
               s_reps s = (if reps_of q = [] then None else py_int env (reps_of q)) \<and>
               (reps_of q \<noteq> [] \<longrightarrow> s_reps s \<noteq> None)"
      if sr: "set_of_row env d wid eid weid i q s" for d wid eid weid i q s
    proof -
      from sr obtain w where w: "parse_field (py_float env) (weight_of q) = Inr w"
        "s_weight_kg s = sqlite_real w"
        by (auto simp: set_of_row_def weight_of_def)
      from sr obtain p where p: "parse_field (py_int env) (reps_of q) = Inr p"
        "sqlite_integer p = Inr (s_reps s)"
        by (auto simp: set_of_row_def reps_of_def)
      from p(2) have ps: "s_reps s = p" by (simp add: sqlite_integer_Inr)
      from w(1) have w': "if weight_of q = [] then w = None
                          else w \<noteq> None \<and> py_float env (weight_of q) = w"
        by (simp only: parse_field_Inr)
      from p(1) have p': "if reps_of q = [] then p = None
                          else p \<noteq> None \<and> py_int env (reps_of q) = p"
        by (simp only: parse_field_Inr)
      have 1: "s_weight_kg s = (if weight_of q = [] then None
                                else sqlite_real (py_float env (weight_of q)))"
        using w(2) w' by (auto simp: sqlite_real_def split: if_splits)
      have 2: "weight_of q \<noteq> [] \<longrightarrow> py_float env (weight_of q) \<noteq> None"
        using w' by (auto split: if_splits)
      have 3: "s_weight_kg s = None \<longleftrightarrow> weight_of q = [] \<or> py_float env (weight_of q) = Some NaN"
        using w(2) w' by (auto simp: sqlite_real_None split: if_splits)
      have 4: "s_reps s = (if reps_of q = [] then None else py_int env (reps_of q))"
        using ps p' by (auto split: if_splits)
      have 5: "reps_of q \<noteq> [] \<longrightarrow> s_reps s \<noteq> None"
        using ps p' by (auto split: if_splits)
      from 1 2 3 4 5 show ?thesis by (intro conjI)
    qed
    have "list_all2 (\<lambda>s p.
                   s_weight_kg s = (if weight_of (snd (snd p)) = [] then None
                                    else sqlite_real (py_float env (weight_of (snd (snd p))))) \<and>
                   (weight_of (snd (snd p)) \<noteq> [] \<longrightarrow>
                      py_float env (weight_of (snd (snd p))) \<noteq> None) \<and>
                   (s_weight_kg s = None \<longleftrightarrow>
                      weight_of (snd (snd p)) = [] \<or>
                      py_float env (weight_of (snd (snd p))) = Some NaN) \<and>
                   s_reps s = (if reps_of (snd (snd p)) = [] then None
                               else py_int env (reps_of (snd (snd p)))) \<and>
                   (reps_of (snd (snd p)) \<noteq> [] \<longrightarrow> s_reps s \<noteq> None))
                 (sets_tbl st) (plan rows)"
      using build_sets[OF b]
    proof (rule list_all2_mono)
      fix s p assume "set_in_plan env st s p"
      then obtain wid eid weid i where "set_of_row env (fst p) wid eid weid i (snd (snd p)) s"
        by (auto simp: set_in_plan_def set_in_group_def)
      then show "s_weight_kg s = (if weight_of (snd (snd p)) = [] then None
                                    else sqlite_real (py_float env (weight_of (snd (snd p))))) \<and>
                   (weight_of (snd (snd p)) \<noteq> [] \<longrightarrow>
                      py_float env (weight_of (snd (snd p))) \<noteq> None) \<and>
                   (s_weight_kg s = None \<longleftrightarrow>
                      weight_of (snd (snd p)) = [] \<or>
                      py_float env (weight_of (snd (snd p))) = Some NaN) \<and>
                   s_reps s = (if reps_of (snd (snd p)) = [] then None
                               else py_int env (reps_of (snd (snd p)))) \<and>
                   (reps_of (snd (snd p)) \<noteq> [] \<longrightarrow> s_reps s \<noteq> None)"
        by (rule row)
    qed
    with plan_has_row[OF assms] show ?thesis by simp
  qed
  from fatal ok show ?thesis by blast
qed

(* evaluation *)
lemma bad_reps_facts:
  "read_csv example_header bad_reps_data = [bad_reps_row]"
  "date_of bad_reps_row \<noteq> []" "exercise_of bad_reps_row \<noteq> []"
  "reps_of bad_reps_row \<noteq> []" "py_int example_runtime (reps_of bad_reps_row) = None"
  "convert_rows example_runtime (read_csv example_header bad_reps_data) None =
     (Inl (Uncaught ValueError), Some empty_database)"
  by code_simp+

(* evaluation *)
lemma overflow_facts:
  "read_csv example_header overflow_data = [overflow_row]"
  "date_of overflow_row \<noteq> []" "exercise_of overflow_row \<noteq> []"
  "reps_of overflow_row \<noteq> []" "py_int example_runtime (reps_of overflow_row) = Some (2 ^ 63)"
  "convert_rows example_runtime (read_csv example_header overflow_data) None =
     (Inl (Uncaught OverflowError), Some empty_database)"
  by code_simp+

(* evaluation *)
lemma nan_facts:
  "read_csv example_header nan_data = [nan_row]"
  "date_of nan_row \<noteq> []" "exercise_of nan_row \<noteq> []"
  "weight_of nan_row = ''nan''" "py_float example_runtime ''nan'' = Some NaN"
  "fst (convert_rows example_runtime [nan_row] None) =
     Inr \<lparr>exercises_tbl =
            [\<lparr>e_id = 1, e_uid = 1, e_name = ''Squat'', e_created_at = 1768847400000\<rparr>],
          workouts_tbl =
            [\<lparr>w_id = 1, w_uid = 0, w_started_at = 1768847400000,
               w_completed_at = 1768847400000\<rparr>],
          workout_exercises_tbl =
            [\<lparr>wx_id = 1, wx_uid = 2, wx_workout_id = 1, wx_exercise_id = 1,
               wx_order_index = 0, wx_note = None, wx_performed_at = 1768847400000,
               wx_completed_at = 1768847400000\<rparr>],
          sets_tbl =
            [\<lparr>s_id = 1, s_uid = 3, s_workout_id = 1, s_exercise_id = 1,
               s_workout_exercise_id = 1, s_set_index = 0, s_weight_kg = None,
               s_reps = Some 5, s_note = None, s_performed_at = 1768847400000,
               s_is_warmup = 0\<rparr>],
          exercises = [(''Squat'', 1)], workouts = [(''19/01/2026'', 1)],
          workout_exercises = [((1, 1), 1)], set_count = 1, uid_count = 4, clock = 0\<rparr>"
  "plan [nan_row] = [(''19/01/2026'', ''Squat'', nan_row)]"
  by code_simp+

theorem C8_numeric_fields_witness:
  "bad_reps_row \<in> set (read_csv example_header bad_reps_data)
   \<and> reps_of bad_reps_row \<noteq> [] \<and> py_int example_runtime (reps_of bad_reps_row) = None
   \<and> convert_rows example_runtime (read_csv example_header bad_reps_data) None =
        (Inl (Uncaught ValueError), Some empty_database)
   \<and> exit_status (fst (convert_rows example_runtime (read_csv example_header bad_reps_data) None)) = 1
   \<and> overflow_row \<in> set (read_csv example_header overflow_data)
   \<and> py_int example_runtime (reps_of overflow_row) = Some (2 ^ 63)
   \<and> convert_rows example_runtime (read_csv example_header overflow_data) None =
        (Inl (Uncaught OverflowError), Some empty_database)
   \<and> exit_status (fst (convert_rows example_runtime (read_csv example_header overflow_data) None)) = 1
   \<and> py_float example_runtime (weight_of nan_row) = Some NaN
   \<and> (\<exists>st. fst (convert_rows example_runtime [nan_row] None) = Inr st \<and>
          map s_weight_kg (sets_tbl st) = [None])
   \<and> plank_row \<in> set example_rows
   \<and> fst (convert_rows example_runtime example_rows None) = Inr example_state
   \<and> (date_of plank_row, exercise_of plank_row, plank_row) \<in> set (plan example_rows)
   \<and> list_all2 (\<lambda>s p.
          s_weight_kg s = (if weight_of (snd (snd p)) = [] then None
                           else sqlite_real (py_float example_runtime (weight_of (snd (snd p))))) \<and>
          (weight_of (snd (snd p)) \<noteq> [] \<longrightarrow>
             py_float example_runtime (weight_of (snd (snd p))) \<noteq> None) \<and>
          (s_weight_kg s = None \<longleftrightarrow>
             weight_of (snd (snd p)) = [] \<or>
             py_float example_runtime (weight_of (snd (snd p))) = Some NaN) \<and>
          s_reps s = (if reps_of (snd (snd p)) = [] then None
                      else py_int example_runtime (reps_of (snd (snd p)))) \<and>
          (reps_of (snd (snd p)) \<noteq> [] \<longrightarrow> s_reps s \<noteq> None))
        (sets_tbl example_state) (plan example_rows)"
proof -
  have m: "bad_reps_row \<in> set (read_csv example_header bad_reps_data)"
    by (simp add: bad_reps_facts(1))
  have o: "overflow_row \<in> set (read_csv example_header overflow_data)"
    by (simp add: overflow_facts(1))
  have n: "nan_row \<in> set [nan_row]" by simp
  note B = C8_numeric_fields [OF m bad_reps_facts(2,3), of example_runtime None]
  note V = C8_numeric_fields [OF o overflow_facts(2,3), of example_runtime None]
  note N = C8_numeric_fields [OF n nan_facts(2,3), of example_runtime None]
  note E = C8_numeric_fields [OF plank_facts(1,5,6), of example_runtime None]
  from B bad_reps_facts(4,5) have
    f: "exit_status (fst (convert_rows example_runtime (read_csv example_header bad_reps_data) None)) = 1"
    by blast
  have big: "\<not> (- (2 ^ 63) \<le> (2 ^ 63 :: int) \<and> (2 ^ 63 :: int) < 2 ^ 63)" by simp
  from V overflow_facts(4,5) big have
    v: "exit_status (fst (convert_rows example_runtime (read_csv example_header overflow_data) None)) = 1"
    by blast
  have w: "py_float example_runtime (weight_of nan_row) = Some NaN"
    by (simp only: nan_facts(4,5))
  from N nan_facts(6) have
    "list_all2 (\<lambda>s p. s_weight_kg s = None \<longleftrightarrow>
             weight_of (snd (snd p)) = [] \<or>
             py_float example_runtime (weight_of (snd (snd p))) = Some NaN)
        (sets_tbl (projr (fst (convert_rows example_runtime [nan_row] None)))) (plan [nan_row])"
    by (auto elim!: list_all2_mono)
  with w have "map s_weight_kg (sets_tbl (projr (fst (convert_rows example_runtime [nan_row] None)))) = [None]"
    by (auto simp: nan_facts(7) list_all2_Cons2)
  with nan_facts(6) have
    k: "\<exists>st. fst (convert_rows example_runtime [nan_row] None) = Inr st \<and>
          map s_weight_kg (sets_tbl st) = [None]"
    by simp
  from E example_converts have
    g: "(date_of plank_row, exercise_of plank_row, plank_row) \<in> set (plan example_rows)"
       "list_all2 (\<lambda>s p.
          s_weight_kg s = (if weight_of (snd (snd p)) = [] then None
                           else sqlite_real (py_float example_runtime (weight_of (snd (snd p))))) \<and>
          (weight_of (snd (snd p)) \<noteq> [] \<longrightarrow>
             py_float example_runtime (weight_of (snd (snd p))) \<noteq> None) \<and>
          (s_weight_kg s = None \<longleftrightarrow>
             weight_of (snd (snd p)) = [] \<or>
             py_float example_runtime (weight_of (snd (snd p))) = Some NaN) \<and>
          s_reps s = (if reps_of (snd (snd p)) = [] then None
                      else py_int example_runtime (reps_of (snd (snd p)))) \<and>
          (reps_of (snd (snd p)) \<noteq> [] \<longrightarrow> s_reps s \<noteq> None))
        (sets_tbl example_state) (plan example_rows)"
    by blast+
  from m bad_reps_facts(4,5,6) f o overflow_facts(5,6) v w k plank_facts(1) example_converts g
  show ?thesis by (intro conjI)
qed

(* evaluation *)
lemma dateless_bad_facts:
  "read_csv example_header dateless_bad_data = [dateless_bad_row]"
  "reps_of dateless_bad_row \<noteq> []" "py_int example_runtime (reps_of dateless_bad_row) = None"
  "weight_of dateless_bad_row \<noteq> []" "py_float example_runtime (weight_of dateless_bad_row) = None"
  "fst (convert_csv_to_db example_runtime example_header dateless_bad_data None) = Inr init_state"
  by code_simp+

theorem C8_counterexample:
  "read_csv example_header dateless_bad_data = [dateless_bad_row]
   \<and> reps_of dateless_bad_row \<noteq> [] \<and> py_int example_runtime (reps_of dateless_bad_row) = None
   \<and> weight_of dateless_bad_row \<noteq> []
   \<and> py_float example_runtime (weight_of dateless_bad_row) = None
   \<and> fst (convert_csv_to_db example_runtime example_header dateless_bad_data None) = Inr init_state
   \<and> exit_status (fst (convert_csv_to_db example_runtime example_header dateless_bad_data None)) = 0"
  using dateless_bad_facts by simp

end
